theory Spec2Isabelle
  imports Main "HOL-Library.Word"
begin

section \<open>Strings of the runtime\<close>

text \<open>
  A string of the server is a sequence of UTF-16 code units. The characters the
  parser and \<open>trim\<close> distinguish (white space, line terminators, digits, ASCII
  letters) are fixed sets of code units, so a code unit is a 16-bit word and a
  string is a list of them. A literal of the source is written \<open>js ''...''\<close>.
\<close>

type_synonym js_char = "16 word"
type_synonym js_string = "js_char list"

definition js :: "string \<Rightarrow> js_string" where
  "js s = map (\<lambda>c. of_nat (of_char c)) s"

text \<open>
  White space of the language: TAB, LF, VT, FF, CR, SP, NBSP, the space
  separators U+1680, U+2000..U+200A, U+202F, U+205F, U+3000, the line and
  paragraph separators U+2028, U+2029, and U+FEFF. \<open>String.prototype.trim\<close>
  and the class \<open>\s\<close> of a regular expression use the same set.
\<close>

definition is_white_space :: "js_char \<Rightarrow> bool" where
  "is_white_space c \<longleftrightarrow>
     (9 \<le> c \<and> c \<le> 13) \<or> c = 32 \<or> c = 0xA0 \<or> c = 0x1680 \<or>
     (0x2000 \<le> c \<and> c \<le> 0x200A) \<or> c = 0x2028 \<or> c = 0x2029 \<or>
     c = 0x202F \<or> c = 0x205F \<or> c = 0x3000 \<or> c = 0xFEFF"

text \<open>Line terminators: LF, CR, U+2028, U+2029. The class \<open>.\<close> excludes them.\<close>

definition is_line_terminator :: "js_char \<Rightarrow> bool" where
  "is_line_terminator c \<longleftrightarrow> c = 10 \<or> c = 13 \<or> c = 0x2028 \<or> c = 0x2029"

definition is_digit :: "js_char \<Rightarrow> bool" where
  "is_digit c \<longleftrightarrow> 48 \<le> c \<and> c \<le> 57"

text \<open>\<open>s.trim()\<close>: white space removed at both ends.\<close>

definition trim :: "js_string \<Rightarrow> js_string" where
  "trim s = rev (dropWhile is_white_space (rev (dropWhile is_white_space s)))"

text \<open>
  \<open>s.slice(start)\<close>: a negative start counts from the end of the string, a
  start beyond the end gives the empty string.
\<close>

definition slice :: "js_string \<Rightarrow> int \<Rightarrow> js_string" where
  "slice s start =
     (if start < 0 then drop (nat (int (length s) + start)) s else drop (nat start) s)"

text \<open>\<open>s.indexOf(c)\<close> for a single code unit: the first index, or \<open>-1\<close>.\<close>

fun indexOf :: "js_string \<Rightarrow> js_char \<Rightarrow> int" where
  "indexOf [] c = - 1"
| "indexOf (x # xs) c =
     (if x = c then 0 else (let i = indexOf xs c in if i = - 1 then - 1 else i + 1))"

section \<open>Numbers\<close>

text \<open>
  \<open>Number(d)\<close> on a string of decimal digits is the double nearest to the
  decimal value, ties to even, and \<open>Infinity\<close> from \<open>2^1024\<close> on. Only
  non-negative integers arise, so a number is kept as the integer it denotes.
\<close>

datatype js_number = Finite nat | Infinity

fun bit_length :: "nat \<Rightarrow> nat" where
  "bit_length n = (if n = 0 then 0 else Suc (bit_length (n div 2)))"

definition to_double :: "nat \<Rightarrow> js_number" where
  "to_double n =
     (if n < 2 ^ 53 then Finite n
      else
        let e = bit_length n - 53;
            q = n div 2 ^ e;
            r = n mod 2 ^ e;
            q' = (if 2 ^ e < 2 * r \<or> (2 * r = 2 ^ e \<and> odd q) then q + 1 else q);
            v = q' * 2 ^ e
        in if 2 ^ 1024 \<le> v then Infinity else Finite v)"

definition digits_value :: "js_string \<Rightarrow> nat" where
  "digits_value ds = foldl (\<lambda>a c. 10 * a + (unat c - 48)) 0 ds"

definition Number :: "js_string \<Rightarrow> js_number" where
  "Number ds = to_double (digits_value ds)"

section \<open>The regular expressions of the parser\<close>

text \<open>
  The four expressions of \<open>parseModelOutput\<close> are sequences of terms, each a
  character class that is matched once, or repeated greedily (\<open>*\<close>), or a
  capturing group around a class repeated at least once (\<open>(c+)\<close>). All four
  carry the flag \<open>i\<close>: a literal character matches a code unit with the same
  canonical form. The literals of the source are ASCII, and a code unit from 128
  on never canonicalises to an ASCII one, so only the ASCII letters are folded.
\<close>

datatype cls = Lit js_char | WhiteSpace | DecimalDigit | AnyChar

datatype rx_term = One cls | Star cls | GroupPlus cls

definition canonicalize :: "js_char \<Rightarrow> js_char" where
  "canonicalize c = (if 97 \<le> c \<and> c \<le> 122 then c - 32 else c)"

fun cls_match :: "cls \<Rightarrow> js_char \<Rightarrow> bool" where
  "cls_match (Lit l) c = (canonicalize c = canonicalize l)"
| "cls_match WhiteSpace c = is_white_space c"
| "cls_match DecimalDigit c = is_digit c"
| "cls_match AnyChar c = (\<not> is_line_terminator c)"

text \<open>
  A greedy repetition takes the longest run first and gives characters back one
  at a time while the rest of the expression fails: \<open>greedy k lo n\<close> tries the
  continuation \<open>k\<close> on the counts \<open>n\<close>, \<open>n - 1\<close>, ... down to \<open>lo\<close>.
\<close>

fun greedy :: "(nat \<Rightarrow> 'a option) \<Rightarrow> nat \<Rightarrow> nat \<Rightarrow> 'a option" where
  "greedy k lo 0 = (if lo = 0 then k 0 else None)"
| "greedy k lo (Suc n) =
     (if Suc n < lo then None
      else (case k (Suc n) of Some r \<Rightarrow> Some r | None \<Rightarrow> greedy k lo n))"

text \<open>
  \<open>rx_match ts s\<close> matches the expression at the start of \<open>s\<close>: the captures
  and the text after the match, or \<open>None\<close>.
\<close>

fun rx_match :: "rx_term list \<Rightarrow> js_string \<Rightarrow> (js_string list \<times> js_string) option" where
  "rx_match [] s = Some ([], s)"
| "rx_match (One c # ts) [] = None"
| "rx_match (One c # ts) (x # xs) = (if cls_match c x then rx_match ts xs else None)"
| "rx_match (Star c # ts) s =
     greedy (\<lambda>n. rx_match ts (drop n s)) 0 (length (takeWhile (cls_match c) s))"
| "rx_match (GroupPlus c # ts) s =
     greedy (\<lambda>n. map_option (\<lambda>(caps, rest). (take n s # caps, rest)) (rx_match ts (drop n s)))
       1 (length (takeWhile (cls_match c) s))"

text \<open>
  \<open>rx_exec\<close> is the search of an expression without the flag \<open>g\<close>: the start
  positions are tried from 0 to the length of the string, and the first match
  wins. The result is the index, the captures and the text after the match.
\<close>

fun rx_exec :: "rx_term list \<Rightarrow> js_string \<Rightarrow> (nat \<times> js_string list \<times> js_string) option" where
  "rx_exec ts [] = map_option (\<lambda>m. (0, m)) (rx_match ts [])"
| "rx_exec ts (x # xs) =
     (case rx_match ts (x # xs) of
        Some m \<Rightarrow> Some (0, m)
      | None \<Rightarrow> map_option (\<lambda>(i, m). (Suc i, m)) (rx_exec ts xs))"

text \<open>\<open>s.match(re)\<close>: the captures of the first match, or \<open>null\<close>.\<close>

definition match :: "js_string \<Rightarrow> rx_term list \<Rightarrow> js_string list option" where
  "match s re = map_option (\<lambda>(i, caps, rest). caps) (rx_exec re s)"

text \<open>\<open>s.search(re)\<close>: the index of the first match, or \<open>-1\<close>.\<close>

definition search :: "js_string \<Rightarrow> rx_term list \<Rightarrow> int" where
  "search s re = (case rx_exec re s of None \<Rightarrow> - 1 | Some (i, m) \<Rightarrow> int i)"

definition lit :: "string \<Rightarrow> rx_term list" where
  "lit w = map (\<lambda>c. One (Lit c)) (js w)"

text \<open>A tag: its name, optional white space, a colon (\<open>NAME\s*:\<close>).\<close>

definition tag_rx :: "string \<Rightarrow> rx_term list" where
  "tag_rx name = lit name @ [Star WhiteSpace, One (Lit 58)]"

text \<open>\<open>/FIT_SCORE\s*:\s*(\d+)/i\<close>\<close>

definition fit_rx :: "rx_term list" where
  "fit_rx = tag_rx ''FIT_SCORE'' @ [Star WhiteSpace, GroupPlus DecimalDigit]"

text \<open>\<open>/RISK_SCORE\s*:\s*(\d+)/i\<close>\<close>

definition risk_rx :: "rx_term list" where
  "risk_rx = tag_rx ''RISK_SCORE'' @ [Star WhiteSpace, GroupPlus DecimalDigit]"

text \<open>\<open>/VERDICT\s*:\s*(.+)/i\<close>\<close>

definition verdict_rx :: "rx_term list" where
  "verdict_rx = tag_rx ''VERDICT'' @ [Star WhiteSpace, GroupPlus AnyChar]"

text \<open>\<open>/REPORT\s*:/i\<close>\<close>

definition report_rx :: "rx_term list" where
  "report_rx = tag_rx ''REPORT''"

section \<open>parseModelOutput\<close>

record parsed =
  fitScore :: "js_number option"
  riskScore :: "js_number option"
  verdict :: js_string
  report :: js_string

definition no_verdict :: js_string where
  "no_verdict = js ''No clear verdict parsed''"

definition parseModelOutput :: "js_string \<Rightarrow> parsed" where
  "parseModelOutput raw =
     (let fitMatch = match raw fit_rx;
          riskMatch = match raw risk_rx;
          verdictMatch = match raw verdict_rx;
          reportIndex = search raw report_rx;
          fitScore = (case fitMatch of Some m \<Rightarrow> Some (Number (hd m)) | None \<Rightarrow> None);
          riskScore = (case riskMatch of Some m \<Rightarrow> Some (Number (hd m)) | None \<Rightarrow> None);
          verdict = (case verdictMatch of Some m \<Rightarrow> trim (hd m) | None \<Rightarrow> no_verdict);
          report =
            (if reportIndex \<noteq> - 1 then
               (let after = slice raw reportIndex;
                    firstNewline = indexOf after 10
                in if firstNewline \<noteq> - 1 then trim (slice after (firstNewline + 1))
                   else trim after)
             else raw)
      in \<lparr>fitScore = fitScore, riskScore = riskScore, verdict = verdict, report = report\<rparr>)"

section \<open>The data of a request\<close>

record ResumeInput =
  id_resume :: js_string
  text_resume :: js_string

text \<open>
  An \<open>AnalyzeResult\<close> has the four fields of the parser's result and the
  \<open>id\<close> of the candidate.
\<close>

record AnalyzeResult = parsed +
  id_result :: js_string

text \<open>
  The body of \<open>POST /analyze\<close> after \<open>req.json()\<close>, at the type the handler
  casts it to: both fields are optional.
\<close>

record analyze_body =
  body_jd :: "js_string option"
  body_resumes :: "ResumeInput list option"

text \<open>
  A request: its method, the path of its URL, and what \<open>req.json()\<close> gives
  (\<open>None\<close> when it throws, as on a body that is not JSON).
\<close>

record request =
  req_method :: js_string
  req_pathname :: js_string
  req_json :: "analyze_body option"

text \<open>
  A response: status, headers and body. A JSON body is kept as the data that
  \<open>JSON.stringify\<close> serialises; it is a string body like a text.
\<close>

datatype json_data = ErrorData js_string | ResultsData "AnalyzeResult list"

datatype body = NoBody | TextBody js_string | JsonBody json_data

record response =
  status :: nat
  headers :: "(js_string \<times> js_string) list"
  body :: body

text \<open>
  \<open>resp.headers.get(name)\<close>: the names of headers are compared without regard
  to the case of ASCII letters.
\<close>

definition header :: "response \<Rightarrow> string \<Rightarrow> js_string option" where
  "header resp name =
     map_of (map (\<lambda>(k, v). (map canonicalize k, v)) (headers resp)) (map canonicalize (js name))"

text \<open>
  \<open>new Response(body, {status, headers})\<close>: the headers are the ones given, and
  a body that is a string and comes with no \<open>Content-Type\<close> among them gets the
  header \<open>content-type: text/plain;charset=UTF-8\<close>. A \<open>null\<close> body gets none.
\<close>

definition Response :: "body \<Rightarrow> nat \<Rightarrow> (js_string \<times> js_string) list \<Rightarrow> response" where
  "Response b code hs =
     (let resp = \<lparr>status = code, headers = hs, body = b\<rparr>
      in if b \<noteq> NoBody \<and> header resp ''Content-Type'' = None
         then resp\<lparr>headers := hs @ [(js ''content-type'', js ''text/plain;charset=UTF-8'')]\<rparr>
         else resp)"

definition json :: "json_data \<Rightarrow> nat \<Rightarrow> response" where
  "json data code =
     Response (JsonBody data) code
       [(js ''Content-Type'', js ''application/json''),
        (js ''Access-Control-Allow-Origin'', js ''*'')]"

section \<open>The external model call\<close>

text \<open>
  A value caught by \<open>catch (err)\<close>: an \<open>Error\<close> with its message, or any
  other value with the string \<open>String(err)\<close> gives.
\<close>

datatype thrown = ErrorObject js_string | NonError js_string

text \<open>
  The events of the agent's stream: a text delta, a text, or an event of another
  type. A delta or content that is absent behaves as the empty string.
\<close>

datatype event = TextDelta js_string | TextContent js_string | OtherEvent

text \<open>
  The agent is outside the program: \<open>agent.runTask\<close>, drained by the loop of
  \<open>runZypherTask\<close>, takes a prompt and the state of the outside world and
  either throws or delivers its events. The state of a run keeps, next to the
  world, the trace of the calls of \<open>runZypherTask\<close>: each prompt with what the
  call returned or threw.
\<close>

type_synonym 'w agent = "js_string \<Rightarrow> 'w \<Rightarrow> (thrown + event list) \<times> 'w"

record 'w io =
  world :: 'w
  calls :: "(js_string \<times> (thrown + js_string)) list"

fun accumulate :: "js_string \<Rightarrow> event \<Rightarrow> js_string" where
  "accumulate finalText (TextDelta d) = (if d \<noteq> [] then finalText @ d else finalText)"
| "accumulate finalText (TextContent c) = (if c \<noteq> [] then finalText @ c else finalText)"
| "accumulate finalText OtherEvent = finalText"

definition runZypherTask ::
  "'w agent \<Rightarrow> js_string \<Rightarrow> 'w io \<Rightarrow> (thrown + js_string) \<times> 'w io" where
  "runZypherTask ag prompt st =
     (let (out, w) = ag prompt (world st);
          res = (case out of
                   Inl err \<Rightarrow> Inl err
                 | Inr events \<Rightarrow> Inr (trim (foldl accumulate [] events)))
      in (res, \<lparr>world = w, calls = calls st @ [(prompt, res)]\<rparr>))"

section \<open>buildPrompt\<close>

definition buildPrompt :: "js_string \<Rightarrow> js_string \<Rightarrow> js_string" where
  "buildPrompt jd resumeText = concat
     [js ''\<newline>'',
      js ''You are a ruthless startup founder reviewing candidates for a Senior Full-Stack / Agent Infra role at CoreSpeed.\<newline>'',
      js ''\<newline>'',
      js ''You get:\<newline>'',
      js ''1) The exact job description (JD).\<newline>'',
      js ''2) One candidate'',
      [0x2019],
      js ''s resume.\<newline>'',
      js ''\<newline>'',
      js ''Your job:\<newline>'',
      js ''- Decide how well this candidate truly fits the JD.\<newline>'',
      js ''- Detect any bullshit / AI-rewritten / keyword-stuffed patterns.\<newline>'',
      js ''- Score both Fit and Risk.\<newline>'',
      js ''\<newline>'',
      js ''IMPORTANT: You MUST respond in the following EXACT plain-text format.\<newline>'',
      js ''Do NOT add any extra explanation, headings, markdown, or text before FIT_SCORE:.\<newline>'',
      js ''\<newline>'',
      js ''FIT_SCORE: <integer 0-10>\<newline>'',
      js ''RISK_SCORE: <integer 0-10>\<newline>'',
      js ''VERDICT: <short one-sentence founder-style verdict>\<newline>'',
      js ''REPORT:\<newline>'',
      js ''<multi-line markdown analysis; sections: Alignment, Gaps, Red Flags, Verdict>\<newline>'',
      js ''\<newline>'',
      js ''Rules:\<newline>'',
      js ''- fitScore: higher = better match to JD (skills, stack, scope, ownership).\<newline>'',
      js ''- riskScore: higher = more risky (inflated buzzwords, weak ownership, shallow infra experience).\<newline>'',
      js ''- Be brutally honest but grounded in the evidence from the resume vs JD.\<newline>'',
      js ''- If information is missing, say so instead of hallucinating.\<newline>'',
      js ''\<newline>'',
      js ''---------------- JD START ----------------\<newline>'',
      jd,
      js ''\<newline>'',
      js ''---------------- JD END ------------------\<newline>'',
      js ''\<newline>'',
      js ''------------- RESUME START --------------\<newline>'',
      resumeText,
      js ''\<newline>'',
      js ''------------- RESUME END ----------------\<newline>'']"

section \<open>The handler\<close>

definition analysis_failed :: js_string where
  "analysis_failed =
     js ''Analysis failed '' @ [0x2014] @ js '' fallback verdict. Check backend logs.''"

definition error_text :: "thrown \<Rightarrow> js_string" where
  "error_text err = (case err of ErrorObject message \<Rightarrow> message | NonError s \<Rightarrow> s)"

text \<open>One pass of the loop body for a resume that is not skipped.\<close>

definition analyze_one ::
  "'w agent \<Rightarrow> js_string \<Rightarrow> ResumeInput \<Rightarrow> 'w io \<Rightarrow> AnalyzeResult \<times> 'w io" where
  "analyze_one ag jd r st =
     (let prompt = buildPrompt jd (text_resume r);
          (out, st') = runZypherTask ag prompt st
      in (case out of
            Inr raw \<Rightarrow>
              (let parsed = parseModelOutput raw
               in (\<lparr>fitScore = fitScore parsed, riskScore = riskScore parsed,
                     verdict = verdict parsed, report = report parsed,
                     id_result = id_resume r\<rparr>, st'))
          | Inl err \<Rightarrow>
              (\<lparr>fitScore = None, riskScore = None,
                verdict = analysis_failed,
                report = js ''Raw error: '' @ error_text err,
                id_result = id_resume r\<rparr>, st')))"

text \<open>
  The loop over the resumes, with the list \<open>results\<close> it pushes to. A resume
  whose text is empty, or empty after \<open>trim\<close>, is skipped by \<open>continue\<close>.
\<close>

fun analyze_loop ::
  "'w agent \<Rightarrow> js_string \<Rightarrow> ResumeInput list \<Rightarrow> AnalyzeResult list \<Rightarrow> 'w io
     \<Rightarrow> AnalyzeResult list \<times> 'w io" where
  "analyze_loop ag jd [] results st = (results, st)"
| "analyze_loop ag jd (r # rs) results st =
     (if text_resume r = [] \<or> trim (text_resume r) = [] then analyze_loop ag jd rs results st
      else
        (let (res, st') = analyze_one ag jd r st
         in analyze_loop ag jd rs (results @ [res]) st'))"

text \<open>
  The handler of \<open>serve\<close>. The outer \<open>try\<close> answers any exception with the
  response 500; on a body of the type the handler casts it to, \<open>req.json()\<close> is
  the only step outside the inner \<open>try\<close> that can throw. What the handler writes
  to the console is left out, as is the constant model name passed to the agent.
\<close>

definition handler :: "'w agent \<Rightarrow> request \<Rightarrow> 'w io \<Rightarrow> response \<times> 'w io" where
  "handler ag req st =
     (if req_method req = js ''OPTIONS'' then
        (Response NoBody 204
           [(js ''Access-Control-Allow-Origin'', js ''*''),
            (js ''Access-Control-Allow-Methods'', js ''POST, OPTIONS''),
            (js ''Access-Control-Allow-Headers'', js ''Content-Type'')], st)
      else if req_pathname req = js ''/analyze'' \<and> req_method req = js ''POST'' then
        (case req_json req of
           None \<Rightarrow>
             (json (ErrorData (js
                ''Internal server error while analyzing resumes. Check backend logs.'')) 500,
              st)
         | Some b \<Rightarrow>
             (let jd = (case body_jd b of Some s \<Rightarrow> trim s | None \<Rightarrow> []);
                  resumes = (case body_resumes b of Some rs \<Rightarrow> rs | None \<Rightarrow> [])
              in if jd = [] then
                   (json (ErrorData (js ''Missing 'jd' in request body'')) 400, st)
                 else if length resumes = 0 then
                   (json (ErrorData (js ''Provide at least one resume'')) 400, st)
                 else
                   (let (results, st') = analyze_loop ag jd resumes [] st
                    in (json (ResultsData results) 200, st'))))
      else
        (Response (TextBody (js ''Not found'')) 404
           [(js ''Access-Control-Allow-Origin'', js ''*'')], st))"

section \<open>Notions used to state the properties\<close>

text \<open>The job description and the resumes the handler works with.\<close>

definition request_jd :: "request \<Rightarrow> js_string" where
  "request_jd req =
     (case req_json req of
        None \<Rightarrow> []
      | Some b \<Rightarrow> (case body_jd b of Some s \<Rightarrow> trim s | None \<Rightarrow> []))"

definition request_resumes :: "request \<Rightarrow> ResumeInput list" where
  "request_resumes req =
     (case req_json req of
        None \<Rightarrow> []
      | Some b \<Rightarrow> (case body_resumes b of Some rs \<Rightarrow> rs | None \<Rightarrow> []))"

text \<open>
  A request passes validation: it is a \<open>POST /analyze\<close> whose body is read, with
  a job description that is not blank and at least one resume.
\<close>

definition validated :: "request \<Rightarrow> bool" where
  "validated req \<longleftrightarrow>
     req_method req = js ''POST'' \<and> req_pathname req = js ''/analyze'' \<and> req_json req \<noteq> None \<and>
     request_jd req \<noteq> [] \<and> request_resumes req \<noteq> []"

text \<open>The resumes whose trimmed text is not empty, in the order of the input.\<close>

definition non_blank :: "ResumeInput list \<Rightarrow> ResumeInput list" where
  "non_blank rs = filter (\<lambda>r. trim (text_resume r) \<noteq> []) rs"

text \<open>The result the loop body pushes, as a function of what the call gave.\<close>

definition result_of :: "ResumeInput \<Rightarrow> thrown + js_string \<Rightarrow> AnalyzeResult" where
  "result_of r out =
     (case out of
        Inr raw \<Rightarrow>
          \<lparr>fitScore = fitScore (parseModelOutput raw),
           riskScore = riskScore (parseModelOutput raw),
           verdict = verdict (parseModelOutput raw),
           report = report (parseModelOutput raw),
           id_result = id_resume r\<rparr>
      | Inl err \<Rightarrow>
          \<lparr>fitScore = None, riskScore = None, verdict = analysis_failed,
           report = js ''Raw error: '' @ error_text err, id_result = id_resume r\<rparr>)"

text \<open>A text without line terminator.\<close>

definition single_line :: "js_string \<Rightarrow> bool" where
  "single_line v \<longleftrightarrow> list_all (\<lambda>c. \<not> is_line_terminator c) v"

text \<open>The rest of a line: the text up to the next line terminator.\<close>

definition line_rest :: "js_string \<Rightarrow> js_string" where
  "line_rest s = takeWhile (\<lambda>c. \<not> is_line_terminator c) s"

text \<open>
  The first tag \<open>name\<close> of a text, as the parser finds it (the name in any
  case, optional white space, a colon): its index and the text after its colon.
\<close>

definition first_tag :: "string \<Rightarrow> js_string \<Rightarrow> (nat \<times> js_string) option" where
  "first_tag name raw = map_option (\<lambda>(i, caps, rest). (i, rest)) (rx_exec (tag_rx name) raw)"

text \<open>The text \<open>w\<close> occurs in \<open>raw\<close>, letters compared without case.\<close>

definition contains_ci :: "js_string \<Rightarrow> string \<Rightarrow> bool" where
  "contains_ci raw w \<longleftrightarrow> rx_exec (lit w) raw \<noteq> None"

text \<open>The decimal digits of a natural number.\<close>

fun decimal :: "nat \<Rightarrow> js_string" where
  "decimal n =
     (if n < 10 then [of_nat (48 + n)] else decimal (n div 10) @ [of_nat (48 + n mod 10)])"

text \<open>The reply the prompt asks for, with its four fields filled in.\<close>

definition template :: "nat \<Rightarrow> nat \<Rightarrow> js_string \<Rightarrow> js_string \<Rightarrow> js_string" where
  "template f r v b =
     js ''FIT_SCORE: '' @ decimal f @ js ''\<newline>RISK_SCORE: '' @ decimal r @
     js ''\<newline>VERDICT: '' @ v @ js ''\<newline>REPORT:\<newline>'' @ b"

text \<open>No match of the expression starts inside \<open>pre\<close> when \<open>s\<close> follows it.\<close>

fun no_match_in :: "rx_term list \<Rightarrow> js_string \<Rightarrow> js_string \<Rightarrow> bool" where
  "no_match_in ts [] s = True"
| "no_match_in ts (x # pre) s = (rx_match ts (x # pre @ s) = None \<and> no_match_in ts pre s)"

section \<open>Example inputs\<close>

text \<open>
  An agent whose second call throws and whose other calls deliver a reply in
  three events; the world counts the calls.
\<close>

definition flaky_agent :: "nat agent" where
  "flaky_agent prompt w =
     (if w = 1 then Inl (ErrorObject (js ''timeout''))
      else Inr [TextDelta (js ''FIT_SCORE: 9\<newline>RISK_SCORE: 2\<newline>''), OtherEvent,
                TextContent
                  (js ''VERDICT: Strong match.\<newline>REPORT:\<newline>Alignment: ...\<newline>'')],
      Suc w)"

definition io0 :: "nat io" where
  "io0 = \<lparr>world = 0, calls = []\<rparr>"

definition resume :: "string \<Rightarrow> string \<Rightarrow> ResumeInput" where
  "resume i t = \<lparr>id_resume = js i, text_resume = js t\<rparr>"

definition post_analyze :: "string option \<Rightarrow> ResumeInput list option \<Rightarrow> request" where
  "post_analyze j rs =
     \<lparr>req_method = js ''POST'', req_pathname = js ''/analyze'',
      req_json = Some \<lparr>body_jd = map_option js j, body_resumes = rs\<rparr>\<rparr>"

definition get_request :: "string \<Rightarrow> request" where
  "get_request path = \<lparr>req_method = js ''GET'', req_pathname = js path, req_json = None\<rparr>"

section \<open>The parser: lemmas\<close>

declare decimal.simps [simp del]

subsection \<open>Characters\<close>

lemma white_space_not_colon: "is_white_space x \<Longrightarrow> x \<noteq> 58"
  by (auto simp: is_white_space_def)

lemma line_terminator_white_space: "is_line_terminator x \<Longrightarrow> is_white_space x"
  by (auto simp: is_white_space_def is_line_terminator_def)

lemma digit_not_white_space: "is_digit x \<Longrightarrow> \<not> is_white_space x"
  unfolding is_digit_def is_white_space_def by unat_arith

lemma canonicalize_colon [simp]: "canonicalize x = canonicalize 58 \<longleftrightarrow> x = 58"
  unfolding canonicalize_def by unat_arith

subsection \<open>Greedy repetition\<close>

lemma greedy_top: "lo \<le> n \<Longrightarrow> k n = Some r \<Longrightarrow> greedy k lo n = Some r"
  by (cases n) auto

lemma greedy_None: "(\<And>m. m \<le> n \<Longrightarrow> k m = None) \<Longrightarrow> greedy k lo n = None"
  by (induction n) auto

lemma greedy_only_top: "lo \<le> n \<Longrightarrow> (\<And>m. m < n \<Longrightarrow> k m = None) \<Longrightarrow> greedy k lo n = k n"
proof (cases "k n")
  case None
  assume "\<And>m. m < n \<Longrightarrow> k m = None"
  with None have "k m = None" if "m \<le> n" for m
    using that by (cases "m = n") auto
  then show ?thesis using None by (simp add: greedy_None)
next
  case (Some r)
  assume "lo \<le> n"
  with Some show ?thesis by (simp add: greedy_top)
qed

lemma greedy_SomeD: "greedy k lo n = Some r \<Longrightarrow> \<exists>m\<le>n. k m = Some r"
proof (induction n)
  case 0
  then show ?case by (auto split: if_splits)
next
  case (Suc n)
  then show ?case
    by (auto split: if_splits option.splits intro: le_SucI)
qed

subsection \<open>Runs of a class\<close>

lemma drop_takeWhile_length: "drop (length (takeWhile P s)) s = dropWhile P s"
  by (induction s) auto

lemma take_takeWhile_length: "take (length (takeWhile P s)) s = takeWhile P s"
  by (induction s) auto

lemma drop_in_run: "m < length (takeWhile P s) \<Longrightarrow> \<exists>x xs. drop m s = x # xs \<and> P x"
proof (induction s arbitrary: m)
  case Nil
  then show ?case by simp
next
  case (Cons a s)
  then show ?case by (cases m) (auto split: if_splits)
qed

subsection \<open>White space and a colon\<close>

lemma star_space_colon:
  "rx_match (Star WhiteSpace # One (Lit 58) # ts) s =
     (case dropWhile is_white_space s of
        [] \<Rightarrow> None
      | x # xs \<Rightarrow> if x = 58 then rx_match ts xs else None)"
proof -
  let ?n = "length (takeWhile (cls_match WhiteSpace) s)"
  let ?k = "\<lambda>n. rx_match (One (Lit 58) # ts) (drop n s)"
  have below: "?k m = None" if "m < ?n" for m
  proof -
    from drop_in_run [OF that] obtain x xs where "drop m s = x # xs" "cls_match WhiteSpace x"
      by blast
    then show ?thesis by (simp add: white_space_not_colon)
  qed
  have top: "rx_match (Star WhiteSpace # One (Lit 58) # ts) s = ?k ?n"
    using greedy_only_top [of 0 ?n ?k, OF _ below] by simp
  have run: "drop ?n s = dropWhile is_white_space s"
    using drop_takeWhile_length [of "cls_match WhiteSpace" s]
    by (simp add: cls_match.simps [abs_def])
  show ?thesis
  proof (cases "dropWhile is_white_space s")
    case Nil
    show ?thesis unfolding top run Nil by simp
  next
    case (Cons x xs)
    show ?thesis unfolding top run Cons by simp
  qed
qed

subsection \<open>A tag and what follows it\<close>

lemma lits_then:
  "rx_match (map (\<lambda>c. One (Lit c)) w @ Star WhiteSpace # One (Lit 58) # us) s =
     (case rx_match (map (\<lambda>c. One (Lit c)) w @ [Star WhiteSpace, One (Lit 58)]) s of
        None \<Rightarrow> None
      | Some (caps, rest) \<Rightarrow> rx_match us rest)"
proof (induction w arbitrary: s)
  case Nil
  show ?case
  proof (cases "dropWhile is_white_space s")
    case Nil
    show ?thesis
      by (simp add: star_space_colon Nil del: rx_match.simps(4))
  next
    case (Cons x xs)
    show ?thesis
      by (simp add: star_space_colon Cons del: rx_match.simps(4))
  qed
next
  case (Cons c w)
  show ?case
    by (cases s) (simp_all add: Cons.IH)
qed

lemma lits_no_captures:
  "rx_match (map (\<lambda>c. One (Lit c)) w @ [Star WhiteSpace, One (Lit 58)]) s = Some (caps, rest)
     \<Longrightarrow> caps = []"
proof (induction w arbitrary: s)
  case Nil
  then show ?case
    by (simp add: star_space_colon del: rx_match.simps(4) split: list.splits if_splits)
next
  case (Cons c w)
  then show ?case
    by (cases s) (simp_all split: if_splits)
qed

lemma tag_then:
  "rx_match (tag_rx name @ us) s =
     (case rx_match (tag_rx name) s of None \<Rightarrow> None | Some (caps, rest) \<Rightarrow> rx_match us rest)"
  using lits_then [of "js name" us s] by (simp add: tag_rx_def lit_def)

lemma tag_no_captures: "rx_match (tag_rx name) s = Some (caps, rest) \<Longrightarrow> caps = []"
  using lits_no_captures [of "js name" s caps rest] by (simp add: tag_rx_def lit_def)

subsection \<open>The search\<close>

lemma rx_exec_unfold:
  "rx_exec ts s =
     (case rx_match ts s of
        Some m \<Rightarrow> Some (0, m)
      | None \<Rightarrow> (case s of [] \<Rightarrow> None
                 | x # xs \<Rightarrow> map_option (\<lambda>(i, m). (Suc i, m)) (rx_exec ts xs)))"
  by (cases s) (auto split: option.splits)

lemma rx_exec_drop:
  "rx_exec ts s = Some (i, m) \<Longrightarrow> i \<le> length s \<and> rx_match ts (drop i s) = Some m"
proof (induction s arbitrary: i)
  case Nil
  then show ?case by auto
next
  case (Cons x xs)
  then show ?case
    by (cases "rx_match ts (x # xs)") auto
qed

lemma rx_exec_tag_None:
  "rx_exec (tag_rx name) s = None \<Longrightarrow> rx_exec (tag_rx name @ us) s = None"
proof (induction s)
  case Nil
  then show ?case
    by (simp add: tag_then)
next
  case (Cons x xs)
  then show ?case
    by (cases "rx_match (tag_rx name) (x # xs)") (simp_all add: tag_then)
qed

lemma rx_exec_tag_Some:
  "rx_exec (tag_rx name) s = Some (i, caps, after) \<Longrightarrow> rx_match us after = Some (caps', rest)
     \<Longrightarrow> rx_exec (tag_rx name @ us) s = Some (i, caps', rest)"
proof (induction s arbitrary: i)
  case Nil
  then show ?case
    by (auto simp: tag_then)
next
  case (Cons x xs)
  then show ?case
    by (cases "rx_match (tag_rx name) (x # xs)") (auto simp: tag_then)
qed

subsection \<open>White space and a captured run\<close>

lemma space_then_group:
  assumes "takeWhile (cls_match c) (dropWhile is_white_space s) \<noteq> []"
  shows "rx_match [Star WhiteSpace, GroupPlus c] s =
           Some ([takeWhile (cls_match c) (dropWhile is_white_space s)],
                 dropWhile (cls_match c) (dropWhile is_white_space s))"
proof -
  let ?s = "dropWhile is_white_space s"
  let ?n = "length (takeWhile (cls_match WhiteSpace) s)"
  let ?m = "length (takeWhile (cls_match c) ?s)"
  have run: "drop ?n s = ?s"
    using drop_takeWhile_length [of "cls_match WhiteSpace" s]
    by (simp add: cls_match.simps [abs_def])
  have m: "1 \<le> ?m"
    using assms by (cases "takeWhile (cls_match c) ?s") simp_all
  have group: "rx_match [GroupPlus c] ?s = Some ([takeWhile (cls_match c) ?s], dropWhile (cls_match c) ?s)"
    using greedy_top [OF m, of "\<lambda>n. map_option (\<lambda>(caps, rest). (take n ?s # caps, rest)) (rx_match [] (drop n ?s))"]
    by (simp add: take_takeWhile_length drop_takeWhile_length)
  show ?thesis
    using greedy_top [of 0 ?n "\<lambda>n. rx_match [GroupPlus c] (drop n s)"] group
    by (simp add: run)
qed

subsection \<open>The fields of the parser's result\<close>

lemma fitScore_parse:
  "fitScore (parseModelOutput raw) =
     (case match raw fit_rx of Some m \<Rightarrow> Some (Number (hd m)) | None \<Rightarrow> None)"
  by (simp add: parseModelOutput_def Let_def)

lemma riskScore_parse:
  "riskScore (parseModelOutput raw) =
     (case match raw risk_rx of Some m \<Rightarrow> Some (Number (hd m)) | None \<Rightarrow> None)"
  by (simp add: parseModelOutput_def Let_def)

lemma verdict_parse:
  "verdict (parseModelOutput raw) =
     (case match raw verdict_rx of Some m \<Rightarrow> trim (hd m) | None \<Rightarrow> no_verdict)"
  by (simp add: parseModelOutput_def Let_def)

lemma report_parse:
  "report (parseModelOutput raw) =
     (if search raw report_rx \<noteq> - 1 then
        (if indexOf (slice raw (search raw report_rx)) 10 \<noteq> - 1
         then trim (slice (slice raw (search raw report_rx))
                      (indexOf (slice raw (search raw report_rx)) 10 + 1))
         else trim (slice raw (search raw report_rx)))
      else raw)"
  by (simp add: parseModelOutput_def Let_def)

subsection \<open>Decimal digits\<close>

lemma unat_digit_char: "d < 10 \<Longrightarrow> unat (48 + of_nat d :: js_char) = 48 + d"
proof -
  assume d: "d < 10"
  have "unat (of_nat (48 + d) :: js_char) = (48 + d) mod 2 ^ 16"
    by (simp add: unat_of_nat del: of_nat_add)
  with d show ?thesis by simp
qed

lemma digit_char: "d < 10 \<Longrightarrow> is_digit (48 + of_nat d)"
  unfolding is_digit_def
  by (simp add: word_le_nat_alt unat_digit_char)

lemma decimal_digits: "\<forall>c \<in> set (decimal n). is_digit c"
proof (induction n rule: decimal.induct)
  case (1 n)
  show ?case
  proof (cases "n < 10")
    case True
    then show ?thesis by (simp add: decimal.simps [of n] digit_char)
  next
    case False
    with 1 show ?thesis by (simp add: decimal.simps [of n] digit_char)
  qed
qed

lemma decimal_not_Nil [simp]: "decimal n \<noteq> []"
  by (simp add: decimal.simps [of n])

lemma digits_value_snoc: "digits_value (ds @ [c]) = 10 * digits_value ds + (unat c - 48)"
  by (simp add: digits_value_def)

lemma digit_char_value: "d < 10 \<Longrightarrow> unat (48 + of_nat d :: js_char) - 48 = d"
  by (simp add: unat_digit_char)

lemma digits_value_decimal: "digits_value (decimal n) = n"
proof (induction n rule: decimal.induct)
  case (1 n)
  show ?case
  proof (cases "n < 10")
    case True
    then show ?thesis
      using digit_char_value [of n] digits_value_snoc [of "[]"]
      by (simp add: decimal.simps [of n] digits_value_def)
  next
    case False
    with 1 have "digits_value (decimal (n div 10)) = n div 10" by simp
    with False show ?thesis
      using digit_char_value [of "n mod 10"]
      by (simp add: decimal.simps [of n] digits_value_snoc)
  qed
qed

lemma Number_decimal: "n < 2 ^ 53 \<Longrightarrow> Number (decimal n) = Finite n"
  by (simp add: Number_def digits_value_decimal to_double_def)

subsection \<open>Trimming\<close>

lemma trim_eq_Nil: "trim s = [] \<longleftrightarrow> (\<forall>x \<in> set s. is_white_space x)"
proof
  assume "trim s = []"
  then have all: "\<forall>x \<in> set (dropWhile is_white_space s). is_white_space x"
    by (simp add: trim_def dropWhile_eq_Nil_conv)
  show "\<forall>x \<in> set s. is_white_space x"
  proof (cases "dropWhile is_white_space s")
    case Nil
    then show ?thesis by (simp add: dropWhile_eq_Nil_conv)
  next
    case (Cons y ys)
    then have "\<not> is_white_space y"
      using hd_dropWhile [of is_white_space s] by simp
    with all Cons show ?thesis by simp
  qed
next
  assume "\<forall>x \<in> set s. is_white_space x"
  then show "trim s = []"
    by (auto simp: trim_def dropWhile_eq_Nil_conv dest: set_dropWhileD)
qed

lemma trim_dropWhile: "trim (dropWhile is_white_space s) = trim s"
  by (simp add: trim_def)

lemma takeWhile_dropWhile_Nil: "takeWhile P (dropWhile P s) = []"
  by (induction s) auto

text \<open>
  Where the rest of the line holds a character that is not white space, the
  longest run of white space stays on the line, and the run of characters up to
  the line terminator that follows it is the rest of the line without its
  leading white space.
\<close>

lemma line_after_space:
  assumes "trim (line_rest s) \<noteq> []"
  shows "takeWhile (\<lambda>c. \<not> is_line_terminator c) (dropWhile is_white_space s)
           = dropWhile is_white_space (line_rest s)"
    and "dropWhile is_white_space (line_rest s) \<noteq> []"
proof -
  let ?P = "\<lambda>c. \<not> is_line_terminator c"
  let ?a = "takeWhile ?P s" and ?b = "dropWhile ?P s"
  from assms obtain x where x: "x \<in> set ?a" "\<not> is_white_space x"
    by (auto simp: trim_eq_Nil line_rest_def)
  have s: "s = ?a @ ?b" by simp
  have "dropWhile is_white_space s = dropWhile is_white_space (?a @ ?b)"
    by simp
  also have "\<dots> = dropWhile is_white_space ?a @ ?b"
    using x by (rule dropWhile_append1)
  finally have d: "dropWhile is_white_space s = dropWhile is_white_space ?a @ ?b" .
  have "\<forall>y \<in> set (dropWhile is_white_space ?a). ?P y"
    by (auto dest!: set_dropWhileD set_takeWhileD)
  then have "takeWhile ?P (dropWhile is_white_space ?a @ ?b)
               = dropWhile is_white_space ?a @ takeWhile ?P ?b"
    by (simp add: takeWhile_append2)
  then show "takeWhile ?P (dropWhile is_white_space s) = dropWhile is_white_space (line_rest s)"
    by (simp add: d takeWhile_dropWhile_Nil line_rest_def)
  show "dropWhile is_white_space (line_rest s) \<noteq> []"
    using x by (auto simp: line_rest_def dropWhile_eq_Nil_conv)
qed

subsection \<open>Texts without tags\<close>

lemma first_tag_None: "first_tag name raw = None \<longleftrightarrow> rx_exec (tag_rx name) raw = None"
  by (simp add: first_tag_def)

lemma match_without_tag:
  "first_tag name raw = None \<Longrightarrow> match raw (tag_rx name @ us) = None"
  by (simp add: match_def first_tag_None rx_exec_tag_None)

lemma search_without_tag:
  "first_tag name raw = None \<Longrightarrow> search raw (tag_rx name) = - 1"
  by (simp add: search_def first_tag_None)

subsection \<open>Skipping text in which no match starts\<close>

lemma no_match_in_append:
  "no_match_in ts (a @ b) s \<longleftrightarrow> no_match_in ts a (b @ s) \<and> no_match_in ts b s"
  by (induction a) auto

lemma rx_exec_skip:
  "no_match_in ts pre s \<Longrightarrow>
     rx_exec ts (pre @ s) = map_option (\<lambda>(i, m). (length pre + i, m)) (rx_exec ts s)"
proof (induction pre)
  case Nil
  show ?case by (simp add: option.map_ident)
next
  case (Cons x pre)
  then show ?case
    by (simp add: option.map_comp comp_def case_prod_unfold)
qed

lemma digit_not_letter: "is_digit x \<Longrightarrow> 65 \<le> l \<Longrightarrow> canonicalize x \<noteq> canonicalize l"
  unfolding is_digit_def canonicalize_def by unat_arith

lemma no_match_in_digits:
  "\<forall>x \<in> set ds. is_digit x \<Longrightarrow> 65 \<le> l \<Longrightarrow> no_match_in (One (Lit l) # ts) ds s"
  by (induction ds) (simp_all add: digit_not_letter)

lemma no_match_in_decimal: "65 \<le> l \<Longrightarrow> no_match_in (One (Lit l) # ts) (decimal n) s"
  by (simp add: no_match_in_digits decimal_digits)

lemma rx_exec_NoneD: "rx_exec ts (x # xs) = None \<Longrightarrow> rx_match ts (x # xs) = None \<and> rx_exec ts xs = None"
  by (cases "rx_match ts (x # xs)") auto

lemma lits_before_line_break:
  assumes "rx_match (map (\<lambda>c. One (Lit c)) w @ [Star WhiteSpace, One (Lit 58)]) u = None"
    and "\<forall>c \<in> set w. canonicalize 10 \<noteq> canonicalize c"
    and "y \<noteq> 58" and "\<not> is_white_space y"
  shows "rx_match (map (\<lambda>c. One (Lit c)) w @ [Star WhiteSpace, One (Lit 58)]) (u @ 10 # y # t) = None"
  using assms(1,2)
proof (induction w arbitrary: u)
  case Nil
  have ten: "is_white_space 10" by (simp add: is_white_space_def)
  show ?case
  proof (cases "dropWhile is_white_space u")
    case Nil
    then have "dropWhile is_white_space (u @ 10 # y # t) = y # t"
      using assms(4) ten by (simp add: dropWhile_append dropWhile_eq_Nil_conv)
    then show ?thesis
      using assms(3) by (simp add: star_space_colon del: rx_match.simps(4))
  next
    case (Cons x xs)
    then have "x \<in> set u" "\<not> is_white_space x"
      using hd_dropWhile [of is_white_space u] set_dropWhileD [of x is_white_space u] by auto
    then have "dropWhile is_white_space (u @ 10 # y # t) = (x # xs) @ 10 # y # t"
      using dropWhile_append1 [of x u is_white_space "10 # y # t"] Cons by simp
    moreover have "x \<noteq> 58"
      using Nil.prems(1) Cons by (simp add: star_space_colon del: rx_match.simps(4) split: if_splits)
    ultimately show ?thesis
      by (simp add: star_space_colon del: rx_match.simps(4))
  qed
next
  case (Cons c w)
  show ?case
  proof (cases u)
    case Nil
    then show ?thesis using Cons.prems(2) by simp
  next
    case (Cons x xs)
    then show ?thesis
      using Cons.IH [of xs] Cons.prems by (simp split: if_splits)
  qed
qed

lemma tag_before_line_break:
  assumes "rx_exec (tag_rx name) v = None"
    and "\<forall>c \<in> set (js name). canonicalize 10 \<noteq> canonicalize c"
    and "y \<noteq> 58" and "\<not> is_white_space y"
  shows "no_match_in (tag_rx name) v (10 # y # t)"
  using assms(1)
proof (induction v)
  case Nil
  show ?case by simp
next
  case (Cons x v)
  from rx_exec_NoneD [OF Cons.prems]
  have m: "rx_match (tag_rx name) (x # v) = None" and e: "rx_exec (tag_rx name) v = None"
    by simp_all
  from lits_before_line_break [OF _ assms(2,3,4), of "x # v" t] m
  have "rx_match (tag_rx name) ((x # v) @ 10 # y # t) = None"
    by (simp add: tag_rx_def lit_def)
  with Cons.IH [OF e] show ?case by simp
qed

subsection \<open>A score after its tag\<close>

lemma score_after_tag:
  assumes "rx_exec (tag_rx name) raw = Some (i, caps, ws @ decimal n @ post)"
    and "\<forall>x \<in> set ws. is_white_space x" and "post = [] \<or> \<not> is_digit (hd post)"
  shows "match raw (tag_rx name @ [Star WhiteSpace, GroupPlus DecimalDigit]) = Some [decimal n]"
proof -
  let ?after = "ws @ decimal n @ post"
  obtain d ds where d: "decimal n = d # ds"
    by (cases "decimal n") simp_all
  then have "is_digit d"
    using decimal_digits [of n] by simp
  then have "dropWhile is_white_space (decimal n @ post) = decimal n @ post"
    using d by (simp add: digit_not_white_space)
  then have sp: "dropWhile is_white_space ?after = decimal n @ post"
    using assms(2) by (simp add: dropWhile_append2)
  have "takeWhile is_digit post = []"
    using assms(3) by (cases post) auto
  then have run: "takeWhile (cls_match DecimalDigit) (decimal n @ post) = decimal n"
    using decimal_digits [of n] by (simp add: cls_match.simps [abs_def] takeWhile_append2)
  have "rx_match [Star WhiteSpace, GroupPlus DecimalDigit] ?after =
          Some ([decimal n], dropWhile (cls_match DecimalDigit) (decimal n @ post))"
    using space_then_group [of DecimalDigit ?after] unfolding sp run by simp
  from rx_exec_tag_Some [OF assms(1) this] show ?thesis
    by (simp add: match_def)
qed

lemma tag_forms:
  "rx_match (tag_rx ''FIT_SCORE'') (js ''fit_score:   '' @ s) = Some ([], js ''   '' @ s)"
  "rx_match (tag_rx ''FIT_SCORE'') (js ''FIT_SCORE:'' @ s) = Some ([], s)"
  "rx_match (tag_rx ''RISK_SCORE'') (js ''risk_score:   '' @ s) = Some ([], js ''   '' @ s)"
  "rx_match (tag_rx ''RISK_SCORE'') (js ''RISK_SCORE:'' @ s) = Some ([], s)"
  by (simp_all add: tag_rx_def lit_def js_def canonicalize_def star_space_colon is_white_space_def
        del: rx_match.simps(4))

lemma score_in_context:
  assumes "no_match_in (tag_rx name) pre (t @ decimal n @ post)"
    and "rx_match (tag_rx name) (t @ decimal n @ post) = Some ([], ws @ decimal n @ post)"
    and "\<forall>x \<in> set ws. is_white_space x" and "post = [] \<or> \<not> is_digit (hd post)"
  shows "match (pre @ t @ decimal n @ post) (tag_rx name @ [Star WhiteSpace, GroupPlus DecimalDigit])
           = Some [decimal n]"
proof -
  have "rx_exec (tag_rx name) (t @ decimal n @ post) = Some (0, [], ws @ decimal n @ post)"
    using assms(2) by (simp add: rx_exec_unfold [of _ "t @ decimal n @ post"])
  with rx_exec_skip [OF assms(1)]
  have "rx_exec (tag_rx name) (pre @ t @ decimal n @ post)
          = Some (length pre, [], ws @ decimal n @ post)"
    by simp
  from score_after_tag [OF this assms(3,4)] show ?thesis .
qed

lemma verdict_after_tag:
  assumes "rx_exec (tag_rx ''VERDICT'') raw = Some (i, caps, after)"
    and "trim (line_rest after) \<noteq> []"
  shows "verdict (parseModelOutput raw) = trim (line_rest after)"
proof -
  let ?cap = "dropWhile is_white_space (line_rest after)"
  have run: "takeWhile (cls_match AnyChar) (dropWhile is_white_space after) = ?cap"
    using line_after_space(1) [OF assms(2)] by (simp add: cls_match.simps [abs_def])
  have "rx_match [Star WhiteSpace, GroupPlus AnyChar] after =
          Some ([?cap], dropWhile (cls_match AnyChar) (dropWhile is_white_space after))"
    using space_then_group [of AnyChar after] line_after_space(2) [OF assms(2)]
    unfolding run by simp
  from rx_exec_tag_Some [OF assms(1) this]
  have "match raw verdict_rx = Some [?cap]"
    by (simp add: match_def verdict_rx_def)
  then show ?thesis
    by (simp add: verdict_parse trim_dropWhile)
qed

lemmas tag_eval = tag_rx_def lit_def js_def canonicalize_def star_space_colon is_white_space_def

lemma template_fit:
  "rx_exec (tag_rx ''FIT_SCORE'') (template f r v b) =
     Some (0, [], js '' '' @ decimal f @ js ''\<newline>RISK_SCORE: '' @ decimal r @
       js ''\<newline>VERDICT: '' @ v @ js ''\<newline>REPORT:\<newline>'' @ b)"
  by (simp add: template_def tag_eval del: rx_match.simps(4))

lemma template_risk:
  "\<exists>i. rx_exec (tag_rx ''RISK_SCORE'') (template f r v b) =
     Some (i, [], js '' '' @ decimal r @
       js ''\<newline>VERDICT: '' @ v @ js ''\<newline>REPORT:\<newline>'' @ b)"
proof -
  let ?S = "js ''RISK_SCORE: '' @ decimal r @ js ''\<newline>VERDICT: '' @ v @ js ''\<newline>REPORT:\<newline>'' @ b"
  let ?pre = "js ''FIT_SCORE: '' @ decimal f @ js ''\<newline>''"
  have "no_match_in (tag_rx ''RISK_SCORE'') (js ''FIT_SCORE: '') (decimal f @ js ''\<newline>'' @ ?S)"
    by (simp add: tag_eval del: rx_match.simps(4))
  moreover have "no_match_in (tag_rx ''RISK_SCORE'') (decimal f) (js ''\<newline>'' @ ?S)"
    using no_match_in_decimal [of 82] by (simp add: tag_eval del: rx_match.simps(4))
  moreover have "no_match_in (tag_rx ''RISK_SCORE'') (js ''\<newline>'') ?S"
    by (simp add: tag_eval del: rx_match.simps(4))
  ultimately have "no_match_in (tag_rx ''RISK_SCORE'') ?pre ?S"
    by (simp add: no_match_in_append)
  from rx_exec_skip [OF this]
  have "rx_exec (tag_rx ''RISK_SCORE'') (?pre @ ?S) =
          map_option (\<lambda>(i, m). (length ?pre + i, m)) (rx_exec (tag_rx ''RISK_SCORE'') ?S)" .
  moreover have "rx_exec (tag_rx ''RISK_SCORE'') ?S =
     Some (0, [], js '' '' @ decimal r @ js ''\<newline>VERDICT: '' @ v @ js ''\<newline>REPORT:\<newline>'' @ b)"
    by (simp add: tag_eval del: rx_match.simps(4))
  moreover have "template f r v b = ?pre @ ?S"
    by (simp add: template_def js_def)
  ultimately show ?thesis by simp
qed

lemma template_verdict:
  "\<exists>i. rx_exec (tag_rx ''VERDICT'') (template f r v b) =
     Some (i, [], js '' '' @ v @ js ''\<newline>REPORT:\<newline>'' @ b)"
proof -
  let ?S = "js ''VERDICT: '' @ v @ js ''\<newline>REPORT:\<newline>'' @ b"
  let ?p3 = "js ''\<newline>RISK_SCORE: ''"
  let ?pre = "js ''FIT_SCORE: '' @ decimal f @ ?p3 @ decimal r @ js ''\<newline>''"
  have "no_match_in (tag_rx ''VERDICT'') (js ''FIT_SCORE: '')
          (decimal f @ ?p3 @ decimal r @ js ''\<newline>'' @ ?S)"
    by (simp add: tag_eval del: rx_match.simps(4))
  moreover have "no_match_in (tag_rx ''VERDICT'') (decimal f) (?p3 @ decimal r @ js ''\<newline>'' @ ?S)"
    using no_match_in_decimal [of 86] by (simp add: tag_eval del: rx_match.simps(4))
  moreover have "no_match_in (tag_rx ''VERDICT'') ?p3 (decimal r @ js ''\<newline>'' @ ?S)"
    by (simp add: tag_eval del: rx_match.simps(4))
  moreover have "no_match_in (tag_rx ''VERDICT'') (decimal r) (js ''\<newline>'' @ ?S)"
    using no_match_in_decimal [of 86] by (simp add: tag_eval del: rx_match.simps(4))
  moreover have "no_match_in (tag_rx ''VERDICT'') (js ''\<newline>'') ?S"
    by (simp add: tag_eval del: rx_match.simps(4))
  ultimately have "no_match_in (tag_rx ''VERDICT'') ?pre ?S"
    by (simp add: no_match_in_append)
  from rx_exec_skip [OF this]
  have "rx_exec (tag_rx ''VERDICT'') (?pre @ ?S) =
          map_option (\<lambda>(i, m). (length ?pre + i, m)) (rx_exec (tag_rx ''VERDICT'') ?S)" .
  moreover have "rx_exec (tag_rx ''VERDICT'') ?S =
     Some (0, [], js '' '' @ v @ js ''\<newline>REPORT:\<newline>'' @ b)"
    by (simp add: tag_eval del: rx_match.simps(4))
  moreover have "template f r v b = ?pre @ ?S"
    by (simp add: template_def js_def)
  ultimately show ?thesis by simp
qed

lemma template_report:
  assumes "first_tag ''REPORT'' v = None"
  shows "\<exists>pre. template f r v b = pre @ js ''REPORT:\<newline>'' @ b \<and>
               search (template f r v b) report_rx = int (length pre)"
proof -
  let ?S = "js ''REPORT:\<newline>'' @ b"
  let ?p3 = "js ''\<newline>RISK_SCORE: ''" and ?p5 = "js ''\<newline>VERDICT: ''"
  let ?pre = "js ''FIT_SCORE: '' @ decimal f @ ?p3 @ decimal r @ ?p5 @ v @ js ''\<newline>''"
  have "no_match_in (tag_rx ''REPORT'') (js ''FIT_SCORE: '')
          (decimal f @ ?p3 @ decimal r @ ?p5 @ v @ js ''\<newline>'' @ ?S)"
    by (simp add: tag_eval del: rx_match.simps(4))
  moreover have "no_match_in (tag_rx ''REPORT'') (decimal f)
          (?p3 @ decimal r @ ?p5 @ v @ js ''\<newline>'' @ ?S)"
    using no_match_in_decimal [of 82] by (simp add: tag_eval del: rx_match.simps(4))
  moreover have "no_match_in (tag_rx ''REPORT'') ?p3 (decimal r @ ?p5 @ v @ js ''\<newline>'' @ ?S)"
    by (simp add: tag_eval del: rx_match.simps(4))
  moreover have "no_match_in (tag_rx ''REPORT'') (decimal r) (?p5 @ v @ js ''\<newline>'' @ ?S)"
    using no_match_in_decimal [of 82] by (simp add: tag_eval del: rx_match.simps(4))
  moreover have "no_match_in (tag_rx ''REPORT'') ?p5 (v @ js ''\<newline>'' @ ?S)"
    by (simp add: tag_eval del: rx_match.simps(4))
  moreover have "no_match_in (tag_rx ''REPORT'') v (js ''\<newline>'' @ ?S)"
  proof -
    have eq: "js ''\<newline>'' @ ?S = 10 # 82 # (js ''EPORT:\<newline>'' @ b)"
      by (simp add: js_def)
    show ?thesis
      unfolding eq using assms
      by (intro tag_before_line_break)
        (simp_all add: first_tag_None js_def canonicalize_def is_white_space_def)
  qed
  moreover have "no_match_in (tag_rx ''REPORT'') (js ''\<newline>'') ?S"
    by (simp add: tag_eval del: rx_match.simps(4))
  ultimately have "no_match_in (tag_rx ''REPORT'') ?pre ?S"
    by (simp add: no_match_in_append)
  from rx_exec_skip [OF this]
  have "rx_exec (tag_rx ''REPORT'') (?pre @ ?S) =
          map_option (\<lambda>(i, m). (length ?pre + i, m)) (rx_exec (tag_rx ''REPORT'') ?S)" .
  moreover have "rx_exec (tag_rx ''REPORT'') ?S = Some (0, [], js ''\<newline>'' @ b)"
    by (simp add: tag_eval del: rx_match.simps(4))
  ultimately have "search (?pre @ ?S) report_rx = int (length ?pre)"
    by (simp add: search_def report_rx_def)
  moreover have "template f r v b = ?pre @ ?S"
    by (simp add: template_def js_def)
  ultimately show ?thesis by metis
qed

lemma report_at_marker:
  assumes "search (pre @ js ''REPORT:\<newline>'' @ b) report_rx = int (length pre)"
  shows "report (parseModelOutput (pre @ js ''REPORT:\<newline>'' @ b)) = trim b"
proof -
  have sl: "slice (pre @ js ''REPORT:\<newline>'' @ b) (int (length pre)) = js ''REPORT:\<newline>'' @ b"
    by (simp add: slice_def)
  have ix: "indexOf (js ''REPORT:\<newline>'' @ b) 10 = 7"
    by (simp add: js_def)
  have "slice (js ''REPORT:\<newline>'' @ b) 8 = b"
    by (simp add: slice_def js_def)
  then show ?thesis
    by (simp add: report_parse assms sl ix)
qed

lemmas eval_defs = parseModelOutput_def js_def match_def search_def fit_rx_def risk_rx_def
  verdict_rx_def report_rx_def tag_rx_def lit_def canonicalize_def is_white_space_def
  is_line_terminator_def is_digit_def slice_def trim_def Let_def first_tag_def contains_ci_def
  no_verdict_def line_rest_def

lemma decimal_examples:
  "decimal 2 = js ''2''" "decimal 3 = js ''3''" "decimal 7 = js ''7''" "decimal 9 = js ''9''"
  "decimal 12 = js ''12''"
  by (simp_all add: decimal.simps js_def)

section \<open>The parser: properties\<close>

text \<open>
  C3 as stated fails for a verdict line that holds the text of a tag: the
  report is cut at the first \<open>REPORT:\<close> of the reply, which is then the one inside
  the verdict.
\<close>

theorem parser_round_trip_counterexample:
  "single_line (js ''See REPORT: below'') \<and> js ''See REPORT: below'' \<noteq> [] \<and>
   template 7 2 (js ''See REPORT: below'') (js ''Good'') =
     js ''FIT_SCORE: 7\<newline>RISK_SCORE: 2\<newline>VERDICT: See REPORT: below\<newline>REPORT:\<newline>Good'' \<and>
   report (parseModelOutput (template 7 2 (js ''See REPORT: below'') (js ''Good'')))
     = js ''REPORT:\<newline>Good'' \<and>
   trim (js ''Good'') = js ''Good'' \<and>
   js ''REPORT:\<newline>Good'' \<noteq> js ''Good''"
proof -
  have e: "template 7 2 (js ''See REPORT: below'') (js ''Good'') =
     js ''FIT_SCORE: 7\<newline>RISK_SCORE: 2\<newline>VERDICT: See REPORT: below\<newline>REPORT:\<newline>Good''"
    by (simp add: template_def decimal_examples) (simp add: js_def)
  have r: "report (parseModelOutput
      (js ''FIT_SCORE: 7\<newline>RISK_SCORE: 2\<newline>VERDICT: See REPORT: below\<newline>REPORT:\<newline>Good''))
     = js ''REPORT:\<newline>Good''"
    by (simp add: report_parse search_def report_rx_def tag_eval slice_def trim_def
          del: rx_match.simps(4))
  show ?thesis
    unfolding e r
    by (simp add: single_line_def js_def is_line_terminator_def trim_def is_white_space_def)
qed

text \<open>
  The other conditions of the amended statement are needed as well: a verdict
  line of white space only lets the verdict run on to the next line, and a
  score from \<open>2^53\<close> on is rounded by \<open>Number\<close>.
\<close>

lemma blank_verdict_line_in_template:
  "template 7 2 (js '' '') (js ''Good'') =
     js ''FIT_SCORE: 7\<newline>RISK_SCORE: 2\<newline>VERDICT:  \<newline>REPORT:\<newline>Good'' \<and>
   verdict (parseModelOutput (template 7 2 (js '' '') (js ''Good''))) = js ''REPORT:''"
proof -
  have e: "template 7 2 (js '' '') (js ''Good'') =
     js ''FIT_SCORE: 7\<newline>RISK_SCORE: 2\<newline>VERDICT:  \<newline>REPORT:\<newline>Good''"
    by (simp add: template_def decimal_examples) (simp add: js_def)
  show ?thesis
    unfolding e by (simp add: eval_defs)
qed

lemma score_beyond_safe_integers:
  "fitScore (parseModelOutput (js ''FIT_SCORE: 9007199254740993'')) = Some (Finite 9007199254740992)"
  by (simp add: eval_defs Number_def digits_value_def to_double_def)

text \<open>
  C3, amended. For natural numbers \<open>f\<close> and \<open>r\<close> below \<open>2^53\<close>, a verdict \<open>v\<close>
  that is a single line, holds a character that is not white space and holds no
  \<open>REPORT\<close> tag, and any body, the reply built from the template parses to
  \<open>fitScore = f\<close>, \<open>riskScore = r\<close>, the verdict trimmed and the body trimmed.
\<close>

theorem parser_round_trip:
  assumes "f < 2 ^ 53" and "r < 2 ^ 53"
    and "single_line v" and "trim v \<noteq> []"
    and "first_tag ''REPORT'' v = None"
  shows "parseModelOutput (template f r v b) =
           \<lparr>fitScore = Some (Finite f), riskScore = Some (Finite r),
            verdict = trim v, report = trim b\<rparr>"
proof -
  let ?raw = "template f r v b"
  have sp: "\<forall>x \<in> set (js '' ''). is_white_space x"
    by (simp add: js_def is_white_space_def)
  have nl: "\<not> is_digit (hd (js ''\<newline>RISK_SCORE: '' @ s))" "\<not> is_digit (hd (js ''\<newline>VERDICT: '' @ s))" for s
    by (simp_all add: js_def is_digit_def)
  have "match ?raw fit_rx = Some [decimal f]"
    unfolding fit_rx_def
    by (rule score_after_tag [OF template_fit sp]) (simp add: nl)
  then have fit: "fitScore (parseModelOutput ?raw) = Some (Finite f)"
    using assms(1) by (simp add: fitScore_parse Number_decimal)
  obtain i where "rx_exec (tag_rx ''RISK_SCORE'') ?raw =
     Some (i, [], js '' '' @ decimal r @
       js ''\<newline>VERDICT: '' @ v @ js ''\<newline>REPORT:\<newline>'' @ b)"
    using template_risk by blast
  then have "match ?raw risk_rx = Some [decimal r]"
    unfolding risk_rx_def
    by (rule score_after_tag [OF _ sp]) (simp add: nl)
  then have risk: "riskScore (parseModelOutput ?raw) = Some (Finite r)"
    using assms(2) by (simp add: riskScore_parse Number_decimal)
  obtain j where vt: "rx_exec (tag_rx ''VERDICT'') ?raw =
     Some (j, [], js '' '' @ v @ js ''\<newline>REPORT:\<newline>'' @ b)"
    using template_verdict by blast
  have "line_rest (js '' '' @ v @ js ''\<newline>REPORT:\<newline>'' @ b) = js '' '' @ v"
    using assms(3)
    by (simp add: line_rest_def js_def is_line_terminator_def takeWhile_append2 single_line_def
          list_all_iff)
  moreover have "trim (js '' '' @ v) = trim v"
    by (simp add: trim_def js_def is_white_space_def)
  ultimately have ver: "verdict (parseModelOutput ?raw) = trim v"
    using verdict_after_tag [OF vt] assms(4) by simp
  obtain pre where "?raw = pre @ js ''REPORT:\<newline>'' @ b"
    "search ?raw report_rx = int (length pre)"
    using template_report [OF assms(5)] by blast
  then have rep: "report (parseModelOutput ?raw) = trim b"
    using report_at_marker [of pre b] by simp
  show ?thesis
    using fit risk ver rep by (cases "parseModelOutput ?raw") simp
qed

theorem parser_round_trip_witness:
  "(9::nat) < 2 ^ 53 \<and> (2::nat) < 2 ^ 53 \<and> single_line (js ''Strong match.'') \<and>
   trim (js ''Strong match.'') \<noteq> [] \<and> first_tag ''REPORT'' (js ''Strong match.'') = None \<and>
   template 9 2 (js ''Strong match.'') (js ''Alignment: ...\<newline>'') =
     js ''FIT_SCORE: 9\<newline>RISK_SCORE: 2\<newline>VERDICT: Strong match.\<newline>REPORT:\<newline>Alignment: ...\<newline>'' \<and>
   parseModelOutput (template 9 2 (js ''Strong match.'') (js ''Alignment: ...\<newline>'')) =
     \<lparr>fitScore = Some (Finite 9), riskScore = Some (Finite 2),
      verdict = js ''Strong match.'', report = js ''Alignment: ...''\<rparr>"
proof -
  have h: "(9::nat) < 2 ^ 53" "(2::nat) < 2 ^ 53"
    by simp_all
  have l: "single_line (js ''Strong match.'')"
    by (simp add: single_line_def js_def is_line_terminator_def)
  have v: "trim (js ''Strong match.'') = js ''Strong match.''"
    by (simp add: eval_defs)
  have n: "js ''Strong match.'' \<noteq> []"
    by (simp add: js_def)
  have t: "first_tag ''REPORT'' (js ''Strong match.'') = None"
    by (simp add: eval_defs)
  have b: "trim (js ''Alignment: ...\<newline>'') = js ''Alignment: ...''"
    by (simp add: eval_defs)
  have e: "template 9 2 (js ''Strong match.'') (js ''Alignment: ...\<newline>'') =
     js ''FIT_SCORE: 9\<newline>RISK_SCORE: 2\<newline>VERDICT: Strong match.\<newline>REPORT:\<newline>Alignment: ...\<newline>''"
    by (simp add: template_def decimal_examples) (simp add: js_def)
  from parser_round_trip [OF h l _ t, of "js ''Alignment: ...\<newline>''"] h l v n t b e
  show ?thesis by simp
qed

text \<open>
  The branch of \<open>parseModelOutput\<close> for a marker that no line break follows: the
  report is the text from the index of the marker, trimmed.
\<close>

lemma report_without_line_break:
  assumes "search raw report_rx = int i" and "indexOf (drop i raw) 10 = - 1"
  shows "report (parseModelOutput raw) = trim (drop i raw)"
  using assms by (simp add: report_parse slice_def)

text \<open>
  C5. Where the marker is found and no line break follows, the report is the
  text from the marker on, trimmed: the marker itself is part of it. On
  \<open>REPORT: abc\<close> the code returns \<open>REPORT: abc\<close>, not \<open>abc\<close>.
\<close>

theorem report_without_line_break_keeps_marker:
  "search (js ''REPORT: abc'') report_rx = 0 \<and>
   indexOf (js ''REPORT: abc'') 10 = - 1 \<and>
   report (parseModelOutput (js ''REPORT: abc'')) = js ''REPORT: abc'' \<and>
   report (parseModelOutput (js ''REPORT: abc'')) \<noteq> js ''abc''"
  by (simp add: eval_defs)

text \<open>
  C6 as stated fails where nothing follows the tag: the pattern occurs, the rest
  of its line is empty, and the verdict is the fallback string, not the empty
  string.
\<close>

theorem verdict_counterexample:
  "first_tag ''VERDICT'' (js ''VERDICT:'') = Some (0, []) \<and>
   contains_ci (js ''VERDICT:'') ''VERDICT:'' \<and>
   trim (line_rest []) = [] \<and>
   verdict (parseModelOutput (js ''VERDICT:'')) = no_verdict \<and>
   no_verdict \<noteq> []"
  by (simp add: eval_defs)

text \<open>
  What the parser does when the rest of the line is blank and a later line is
  not: the white space before the group runs over the line break, and the
  verdict is taken from the next line.
\<close>

lemma verdict_from_next_line:
  "verdict (parseModelOutput (js ''VERDICT:\<newline>REPORT:\<newline>x'')) = js ''REPORT:''"
  by (simp add: eval_defs)

text \<open>
  C6, amended. If no \<open>VERDICT\<close> tag (the name in any case, optional white
  space, a colon) occurs, the verdict is the fallback string. If one occurs and,
  at the first, the rest of its line after the colon holds a character that is
  not white space, the verdict is that rest of the line, trimmed.
\<close>

theorem verdict_is_rest_of_line:
  "(first_tag ''VERDICT'' raw = None \<longrightarrow> verdict (parseModelOutput raw) = no_verdict) \<and>
   (\<forall>i after. first_tag ''VERDICT'' raw = Some (i, after) \<and> trim (line_rest after) \<noteq> [] \<longrightarrow>
      verdict (parseModelOutput raw) = trim (line_rest after))"
proof (intro conjI allI impI)
  assume "first_tag ''VERDICT'' raw = None"
  then show "verdict (parseModelOutput raw) = no_verdict"
    by (simp add: verdict_parse verdict_rx_def match_without_tag)
next
  fix i after
  assume a: "first_tag ''VERDICT'' raw = Some (i, after) \<and> trim (line_rest after) \<noteq> []"
  then obtain caps where "rx_exec (tag_rx ''VERDICT'') raw = Some (i, caps, after)"
    by (auto simp: first_tag_def)
  from verdict_after_tag [OF this] a
  show "verdict (parseModelOutput raw) = trim (line_rest after)"
    by simp
qed

theorem verdict_is_rest_of_line_witness:
  "first_tag ''VERDICT'' (js ''Summary. verdict :  Strong hire. \<newline>REPORT:'')
     = Some (9, js ''  Strong hire. \<newline>REPORT:'') \<and>
   trim (line_rest (js ''  Strong hire. \<newline>REPORT:'')) \<noteq> [] \<and>
   verdict (parseModelOutput (js ''Summary. verdict :  Strong hire. \<newline>REPORT:''))
     = js ''Strong hire.'' \<and>
   first_tag ''VERDICT'' (js ''no tags here'') = None \<and>
   verdict (parseModelOutput (js ''no tags here'')) = no_verdict"
proof -
  have a: "first_tag ''VERDICT'' (js ''Summary. verdict :  Strong hire. \<newline>REPORT:'')
     = Some (9, js ''  Strong hire. \<newline>REPORT:'')"
    by (simp add: eval_defs)
  have b: "trim (line_rest (js ''  Strong hire. \<newline>REPORT:'')) = js ''Strong hire.''"
    by (simp add: eval_defs)
  have c: "js ''Strong hire.'' \<noteq> []"
    by (simp add: js_def)
  have d: "first_tag ''VERDICT'' (js ''no tags here'') = None"
    by (simp add: eval_defs)
  from verdict_is_rest_of_line [of "js ''Summary. verdict :  Strong hire. \<newline>REPORT:''"]
    verdict_is_rest_of_line [of "js ''no tags here''"] a b c d
  show ?thesis by simp
qed

text \<open>
  C7 as stated fails for a text that holds none of the four tags as written,
  and holds one with white space before its colon: the parser finds the tag.
\<close>

theorem no_tags_counterexample:
  "\<not> contains_ci (js ''REPORT :\<newline>body'') ''FIT_SCORE:'' \<and>
   \<not> contains_ci (js ''REPORT :\<newline>body'') ''RISK_SCORE:'' \<and>
   \<not> contains_ci (js ''REPORT :\<newline>body'') ''VERDICT:'' \<and>
   \<not> contains_ci (js ''REPORT :\<newline>body'') ''REPORT:'' \<and>
   report (parseModelOutput (js ''REPORT :\<newline>body'')) = js ''body'' \<and>
   js ''body'' \<noteq> js ''REPORT :\<newline>body''"
  by (simp add: eval_defs)

text \<open>
  C7, amended. For every text in which none of the four tag names is followed,
  after optional white space, by a colon (names compared without case), the
  scores are null, the verdict is the fallback string and the report is the
  whole text, unchanged.
\<close>

theorem no_tags_fail_open:
  assumes "first_tag ''FIT_SCORE'' raw = None" and "first_tag ''RISK_SCORE'' raw = None"
    and "first_tag ''VERDICT'' raw = None" and "first_tag ''REPORT'' raw = None"
  shows "parseModelOutput raw =
           \<lparr>fitScore = None, riskScore = None, verdict = no_verdict, report = raw\<rparr>"
proof -
  have "match raw fit_rx = None" "match raw risk_rx = None" "match raw verdict_rx = None"
    using assms(1-3) by (simp_all add: fit_rx_def risk_rx_def verdict_rx_def match_without_tag)
  moreover have "search raw report_rx = - 1"
    using assms(4) by (simp add: report_rx_def search_without_tag)
  ultimately show ?thesis
    by (simp add: parseModelOutput_def)
qed

theorem no_tags_fail_open_witness:
  "first_tag ''FIT_SCORE'' (js '' I cannot judge this;  '') = None \<and>
   first_tag ''RISK_SCORE'' (js '' I cannot judge this;  '') = None \<and>
   first_tag ''VERDICT'' (js '' I cannot judge this;  '') = None \<and>
   first_tag ''REPORT'' (js '' I cannot judge this;  '') = None \<and>
   parseModelOutput (js '' I cannot judge this;  '') =
     \<lparr>fitScore = None, riskScore = None, verdict = no_verdict,
      report = js '' I cannot judge this;  ''\<rparr>"
proof -
  have t: "first_tag ''FIT_SCORE'' (js '' I cannot judge this;  '') = None"
    "first_tag ''RISK_SCORE'' (js '' I cannot judge this;  '') = None"
    "first_tag ''VERDICT'' (js '' I cannot judge this;  '') = None"
    "first_tag ''REPORT'' (js '' I cannot judge this;  '') = None"
    by (simp_all add: eval_defs)
  from no_tags_fail_open [OF t] t show ?thesis by simp
qed

text \<open>
  C8 as stated fails for an input that holds \<open>fit_score:   7\<close> after an
  earlier tag: the first match gives the score.
\<close>

theorem score_tags_counterexample:
  "js ''FIT_SCORE: 3\<newline>fit_score:   7'' = js ''FIT_SCORE: 3\<newline>'' @ js ''fit_score:   '' @ decimal 7 \<and>
   fitScore (parseModelOutput (js ''FIT_SCORE: 3\<newline>fit_score:   7'')) = Some (Finite 3)"
proof -
  have "match (js ''FIT_SCORE: 3\<newline>fit_score:   7'') fit_rx = Some [js ''3'']"
    by (simp add: eval_defs)
  moreover have "Number (js ''3'') = Finite 3"
    using Number_decimal [of 3] by (simp add: decimal_examples)
  ultimately show ?thesis
    by (simp add: fitScore_parse decimal_examples) (simp add: js_def)
qed

text \<open>
  The other conditions of the amended statement are needed as well: a sign is
  not part of the digits, and a digit that follows belongs to the number.
\<close>

lemma score_with_sign_is_null:
  "fitScore (parseModelOutput (js ''FIT_SCORE:-5'')) = None"
  by (simp add: eval_defs)

lemma score_takes_all_digits:
  "fitScore (parseModelOutput (js ''FIT_SCORE:75'')) = Some (Finite 75)"
  by (simp add: eval_defs Number_def digits_value_def to_double_def)

text \<open>
  C8, amended. For every natural number \<open>n\<close> below \<open>2^53\<close>: an input that holds
  the text \<open>fit_score:   \<close> or \<open>FIT_SCORE:\<close> followed by the decimal digits of \<open>n\<close>
  and then by no further digit, and in which no \<open>FIT_SCORE\<close> tag starts before that
  text, has \<open>fitScore = n\<close>; and the same for \<open>RISK_SCORE\<close> and \<open>riskScore\<close>.
\<close>

theorem score_tags_tolerant:
  assumes "n < 2 ^ 53" and "post = [] \<or> \<not> is_digit (hd post)"
  shows "((t = js ''fit_score:   '' \<or> t = js ''FIT_SCORE:'') \<and>
          no_match_in (tag_rx ''FIT_SCORE'') pre (t @ decimal n @ post) \<longrightarrow>
            fitScore (parseModelOutput (pre @ t @ decimal n @ post)) = Some (Finite n)) \<and>
         ((t = js ''risk_score:   '' \<or> t = js ''RISK_SCORE:'') \<and>
          no_match_in (tag_rx ''RISK_SCORE'') pre (t @ decimal n @ post) \<longrightarrow>
            riskScore (parseModelOutput (pre @ t @ decimal n @ post)) = Some (Finite n))"
proof -
  have sp: "\<forall>x \<in> set (js ''   ''). is_white_space x" "\<forall>x \<in> set ([] :: js_string). is_white_space x"
    by (simp_all add: js_def is_white_space_def)
  have fit: "fitScore (parseModelOutput (pre @ t @ decimal n @ post)) = Some (Finite n)"
    if "t = js ''fit_score:   '' \<or> t = js ''FIT_SCORE:''"
      and "no_match_in (tag_rx ''FIT_SCORE'') pre (t @ decimal n @ post)"
  proof -
    from that(1) have "match (pre @ t @ decimal n @ post) fit_rx = Some [decimal n]"
    proof
      assume t: "t = js ''fit_score:   ''"
      show ?thesis
        unfolding fit_rx_def
        using score_in_context [OF that(2) _ sp(1) assms(2)] tag_forms(1) [of "decimal n @ post"]
        by (simp add: t)
    next
      assume t: "t = js ''FIT_SCORE:''"
      show ?thesis
        unfolding fit_rx_def
        using score_in_context [OF that(2) _ sp(2) assms(2)] tag_forms(2) [of "decimal n @ post"]
        by (simp add: t)
    qed
    then show ?thesis
      using assms(1) by (simp add: fitScore_parse Number_decimal)
  qed
  have risk: "riskScore (parseModelOutput (pre @ t @ decimal n @ post)) = Some (Finite n)"
    if "t = js ''risk_score:   '' \<or> t = js ''RISK_SCORE:''"
      and "no_match_in (tag_rx ''RISK_SCORE'') pre (t @ decimal n @ post)"
  proof -
    from that(1) have "match (pre @ t @ decimal n @ post) risk_rx = Some [decimal n]"
    proof
      assume t: "t = js ''risk_score:   ''"
      show ?thesis
        unfolding risk_rx_def
        using score_in_context [OF that(2) _ sp(1) assms(2)] tag_forms(3) [of "decimal n @ post"]
        by (simp add: t)
    next
      assume t: "t = js ''RISK_SCORE:''"
      show ?thesis
        unfolding risk_rx_def
        using score_in_context [OF that(2) _ sp(2) assms(2)] tag_forms(4) [of "decimal n @ post"]
        by (simp add: t)
    qed
    then show ?thesis
      using assms(1) by (simp add: riskScore_parse Number_decimal)
  qed
  from fit risk show ?thesis by blast
qed

theorem score_tags_tolerant_witness:
  "(7::nat) < 2 ^ 53 \<and> \<not> is_digit (hd (js '' of 10'')) \<and>
   no_match_in (tag_rx ''FIT_SCORE'') (js ''Notes. '') (js ''fit_score:   '' @ decimal 7 @ js '' of 10'') \<and>
   fitScore (parseModelOutput (js ''Notes. '' @ js ''fit_score:   '' @ decimal 7 @ js '' of 10''))
     = Some (Finite 7) \<and>
   (12::nat) < 2 ^ 53 \<and>
   no_match_in (tag_rx ''RISK_SCORE'') (js ''fit: '') (js ''RISK_SCORE:'' @ decimal 12 @ []) \<and>
   riskScore (parseModelOutput (js ''fit: '' @ js ''RISK_SCORE:'' @ decimal 12 @ [])) = Some (Finite 12)"
proof -
  have a: "(7::nat) < 2 ^ 53" "js '' of 10'' = [] \<or> \<not> is_digit (hd (js '' of 10''))"
    by (simp_all add: js_def is_digit_def)
  have s: "no_match_in (tag_rx ''FIT_SCORE'') (js ''Notes. '')
             (js ''fit_score:   '' @ decimal 7 @ js '' of 10'')"
    by (simp add: tag_eval del: rx_match.simps(4))
  have b: "(12::nat) < 2 ^ 53" "([] :: js_string) = [] \<or> \<not> is_digit (hd ([] :: js_string))"
    by simp_all
  have u: "no_match_in (tag_rx ''RISK_SCORE'') (js ''fit: '') (js ''RISK_SCORE:'' @ decimal 12 @ [])"
    by (simp add: tag_eval del: rx_match.simps(4))
  from score_tags_tolerant [OF a, of "js ''fit_score:   ''" "js ''Notes. ''"]
    score_tags_tolerant [OF b, of "js ''RISK_SCORE:''" "js ''fit: ''"] a s b u
  show ?thesis by (simp add: js_def is_digit_def)
qed

section \<open>The handler: lemmas\<close>

lemmas fixture_defs = post_analyze_def resume_def io0_def validated_def request_jd_def
  request_resumes_def js_def trim_def is_white_space_def non_blank_def

lemmas response_defs = json_def Response_def header_def Let_def js_def canonicalize_def

lemma json_eq:
  "json d c =
     \<lparr>status = c,
      headers = [(js ''Content-Type'', js ''application/json''),
                 (js ''Access-Control-Allow-Origin'', js ''*'')],
      body = JsonBody d\<rparr>"
  by (simp add: response_defs)

lemma json_fields [simp]:
  "status (json d c) = c" "body (json d c) = JsonBody d"
  by (simp_all add: json_eq)

lemma json_headers:
  "header (json d c) ''Content-Type'' = Some (js ''application/json'')"
  "header (json d c) ''Access-Control-Allow-Origin'' = Some (js ''*'')"
  by (simp_all add: response_defs)

lemma not_found_fields:
  "status (Response (TextBody t) 404 [(js ''Access-Control-Allow-Origin'', js ''*'')]) = 404"
  "header (Response (TextBody t) 404 [(js ''Access-Control-Allow-Origin'', js ''*'')])
     ''Content-Type'' = Some (js ''text/plain;charset=UTF-8'')"
  "header (Response (TextBody t) 404 [(js ''Access-Control-Allow-Origin'', js ''*'')])
     ''Access-Control-Allow-Origin'' = Some (js ''*'')"
  by (simp_all add: response_defs)

lemma preflight_fields:
  "status (Response NoBody 204
     [(js ''Access-Control-Allow-Origin'', js ''*''),
      (js ''Access-Control-Allow-Methods'', js ''POST, OPTIONS''),
      (js ''Access-Control-Allow-Headers'', js ''Content-Type'')]) = 204"
  "header (Response NoBody 204
     [(js ''Access-Control-Allow-Origin'', js ''*''),
      (js ''Access-Control-Allow-Methods'', js ''POST, OPTIONS''),
      (js ''Access-Control-Allow-Headers'', js ''Content-Type'')])
     ''Access-Control-Allow-Origin'' = Some (js ''*'')"
  by (simp_all add: response_defs)

lemma content_types_differ: "js ''text/plain;charset=UTF-8'' \<noteq> js ''application/json''"
  by (simp add: js_def)

lemma trim_Nil [simp]: "trim [] = []"
  by (simp add: trim_def)

lemma post_not_options: "js ''POST'' \<noteq> js ''OPTIONS''"
  by (simp add: js_def)

lemma analyze_one_eq:
  "analyze_one ag jd r st =
     (result_of r (fst (runZypherTask ag (buildPrompt jd (text_resume r)) st)),
      snd (runZypherTask ag (buildPrompt jd (text_resume r)) st))"
  by (simp add: analyze_one_def result_of_def Let_def split: prod.splits sum.splits)

lemma runZypherTask_calls:
  "calls (snd (runZypherTask ag p st)) = calls st @ [(p, fst (runZypherTask ag p st))]"
  by (simp add: runZypherTask_def Let_def split: prod.splits)

text \<open>
  The loop makes one call per resume that is not blank, in order, and pushes the
  result of each call; a blank resume changes neither the results nor the
  state.
\<close>

lemma analyze_loop_trace:
  "\<exists>tr. calls (snd (analyze_loop ag jd rs acc st)) = calls st @ tr \<and>
        map fst tr = map (\<lambda>r. buildPrompt jd (text_resume r)) (non_blank rs) \<and>
        fst (analyze_loop ag jd rs acc st) = acc @ map2 result_of (non_blank rs) (map snd tr)"
proof (induction rs arbitrary: acc st)
  case Nil
  then show ?case by (simp add: non_blank_def)
next
  case (Cons r rs)
  show ?case
  proof (cases "trim (text_resume r) = []")
    case True
    then show ?thesis using Cons.IH [of acc st] by (simp add: non_blank_def)
  next
    case False
    then have ne: "text_resume r \<noteq> []" by auto
    let ?p = "buildPrompt jd (text_resume r)"
    let ?out = "fst (runZypherTask ag ?p st)"
    let ?st = "snd (runZypherTask ag ?p st)"
    from Cons.IH [of "acc @ [result_of r ?out]" ?st]
    obtain tr where tr:
      "calls (snd (analyze_loop ag jd rs (acc @ [result_of r ?out]) ?st)) = calls ?st @ tr"
      "map fst tr = map (\<lambda>r. buildPrompt jd (text_resume r)) (non_blank rs)"
      "fst (analyze_loop ag jd rs (acc @ [result_of r ?out]) ?st) =
         (acc @ [result_of r ?out]) @ map2 result_of (non_blank rs) (map snd tr)"
      by blast
    have step: "analyze_loop ag jd (r # rs) acc st =
                  analyze_loop ag jd rs (acc @ [result_of r ?out]) ?st"
      using False ne by (simp add: analyze_one_eq)
    show ?thesis
      unfolding step
      apply (rule exI [of _ "(?p, ?out) # tr"])
      using tr False by (simp add: runZypherTask_calls non_blank_def del: analyze_loop.simps)
  qed
qed

lemma handler_validated:
  assumes "validated req"
  shows "handler ag req st =
           (json (ResultsData
              (fst (analyze_loop ag (request_jd req) (request_resumes req) [] st))) 200,
            snd (analyze_loop ag (request_jd req) (request_resumes req) [] st))"
  using assms
  by (auto simp: validated_def handler_def request_jd_def request_resumes_def post_not_options
        Let_def split: option.splits prod.splits)

lemma id_result_of [simp]: "id_result (result_of r out) = id_resume r"
  by (simp add: result_of_def split: sum.splits)

lemma map2_result_of_ids:
  "length rs = length outs \<Longrightarrow> map id_result (map2 result_of rs outs) = map id_resume rs"
  by (induction rs outs rule: list_induct2) simp_all

section \<open>The handler: properties\<close>

text \<open>
  The example of failure isolation: three candidates, the call for the second
  throws. The response is 200 with three entries, the second one degraded, and
  three calls were made.
\<close>

lemma failure_isolation_example:
  "handler flaky_agent
     (post_analyze (Some ''Backend engineer'')
        (Some [resume ''A'' ''5 years Go'', resume ''B'' ''Java'', resume ''C'' ''Rust'']))
     io0 =
   (json (ResultsData
      [\<lparr>fitScore = Some (Finite 9), riskScore = Some (Finite 2),
        verdict = js ''Strong match.'', report = js ''Alignment: ...'', id_result = js ''A''\<rparr>,
       \<lparr>fitScore = None, riskScore = None, verdict = analysis_failed,
        report = js ''Raw error: timeout'', id_result = js ''B''\<rparr>,
       \<lparr>fitScore = Some (Finite 9), riskScore = Some (Finite 2),
        verdict = js ''Strong match.'', report = js ''Alignment: ...'', id_result = js ''C''\<rparr>]) 200,
    \<lparr>world = 3,
     calls = [(buildPrompt (js ''Backend engineer'') (js ''5 years Go''),
               Inr (js ''FIT_SCORE: 9\<newline>RISK_SCORE: 2\<newline>VERDICT: Strong match.\<newline>REPORT:\<newline>Alignment: ...'')),
              (buildPrompt (js ''Backend engineer'') (js ''Java''), Inl (ErrorObject (js ''timeout''))),
              (buildPrompt (js ''Backend engineer'') (js ''Rust''),
               Inr (js ''FIT_SCORE: 9\<newline>RISK_SCORE: 2\<newline>VERDICT: Strong match.\<newline>REPORT:\<newline>Alignment: ...''))]\<rparr>)"
  by (simp add: handler_def post_analyze_def resume_def io0_def Let_def analyze_one_def
        runZypherTask_def flaky_agent_def error_text_def eval_defs Number_def digits_value_def
        to_double_def)

text \<open>
  C1. For a request that passes validation the response has status 200 and
  carries a list of results, one per call made. Where the call for a candidate
  threw, the entry of that candidate has \<open>fitScore\<close> and \<open>riskScore\<close> null,
  the fixed verdict of a failed analysis, and the report \<open>Raw error: \<close> followed
  by the message of the error caught (by its string, when the value thrown is
  not an \<open>Error\<close>); every resume that is not blank still has its call and its
  entry, whatever the other calls did.
\<close>

theorem per_candidate_failure_isolated:
  assumes "validated req" and "handler ag req st = (resp, st')"
  shows "status resp = 200 \<and>
         (\<exists>results tr.
            body resp = JsonBody (ResultsData results) \<and>
            calls st' = calls st @ tr \<and>
            length tr = length (non_blank (request_resumes req)) \<and>
            length results = length (non_blank (request_resumes req)) \<and>
            (\<forall>i < length results. \<forall>message.
               snd (tr ! i) = Inl (ErrorObject message) \<or> snd (tr ! i) = Inl (NonError message)
               \<longrightarrow>
               results ! i =
                 \<lparr>fitScore = None, riskScore = None,
                  verdict = js ''Analysis failed '' @ [0x2014] @
                            js '' fallback verdict. Check backend logs.'',
                  report = js ''Raw error: '' @ message,
                  id_result = id_resume (non_blank (request_resumes req) ! i)\<rparr>))"
proof -
  let ?nb = "non_blank (request_resumes req)"
  let ?loop = "analyze_loop ag (request_jd req) (request_resumes req) [] st"
  from analyze_loop_trace [of ag "request_jd req" "request_resumes req" "[]" st]
  obtain tr where tr: "calls (snd ?loop) = calls st @ tr"
    "map fst tr = map (\<lambda>r. buildPrompt (request_jd req) (text_resume r)) ?nb"
    "fst ?loop = map2 result_of ?nb (map snd tr)"
    by auto
  from tr(2) have len: "length tr = length ?nb"
    by (metis length_map)
  from handler_validated [OF assms(1), of ag st] assms(2)
  have resp: "resp = json (ResultsData (fst ?loop)) 200" and st': "st' = snd ?loop"
    by simp_all
  have deg: "\<forall>i < length (fst ?loop). \<forall>message.
               snd (tr ! i) = Inl (ErrorObject message) \<or> snd (tr ! i) = Inl (NonError message)
               \<longrightarrow>
               fst ?loop ! i =
                 \<lparr>fitScore = None, riskScore = None,
                  verdict = js ''Analysis failed '' @ [0x2014] @
                            js '' fallback verdict. Check backend logs.'',
                  report = js ''Raw error: '' @ message,
                  id_result = id_resume (?nb ! i)\<rparr>"
    using len by (auto simp: tr(3) result_of_def error_text_def analysis_failed_def)
  show ?thesis
    using tr(1) len deg by (simp add: resp st' tr(3))
qed

theorem per_candidate_failure_isolated_witness:
  "validated (post_analyze (Some ''Backend engineer'')
                (Some [resume ''A'' ''5 years Go'', resume ''B'' ''Java'', resume ''C'' ''Rust'']))
   \<and> status (fst (handler flaky_agent
                 (post_analyze (Some ''Backend engineer'')
                    (Some [resume ''A'' ''5 years Go'', resume ''B'' ''Java'',
                           resume ''C'' ''Rust'']))
                 io0)) = 200
   \<and> snd (calls (snd (handler flaky_agent
                 (post_analyze (Some ''Backend engineer'')
                    (Some [resume ''A'' ''5 years Go'', resume ''B'' ''Java'',
                           resume ''C'' ''Rust'']))
                 io0)) ! 1) = Inl (ErrorObject (js ''timeout''))
   \<and> (\<exists>results.
         body (fst (handler flaky_agent
                 (post_analyze (Some ''Backend engineer'')
                    (Some [resume ''A'' ''5 years Go'', resume ''B'' ''Java'',
                           resume ''C'' ''Rust'']))
                 io0)) = JsonBody (ResultsData results) \<and>
         length results = 3 \<and>
         results ! 1 =
           \<lparr>fitScore = None, riskScore = None,
            verdict = js ''Analysis failed '' @ [0x2014] @
                      js '' fallback verdict. Check backend logs.'',
            report = js ''Raw error: '' @ js ''timeout'',
            id_result = js ''B''\<rparr>)"
proof -
  let ?req = "post_analyze (Some ''Backend engineer'')
                (Some [resume ''A'' ''5 years Go'', resume ''B'' ''Java'', resume ''C'' ''Rust''])"
  let ?resp = "fst (handler flaky_agent ?req io0)" and ?st = "snd (handler flaky_agent ?req io0)"
  have v: "validated ?req"
    by (simp add: fixture_defs)
  have h: "handler flaky_agent ?req io0 = (?resp, ?st)"
    by simp
  have nb: "non_blank (request_resumes ?req) =
              [resume ''A'' ''5 years Go'', resume ''B'' ''Java'', resume ''C'' ''Rust'']"
    by (simp add: fixture_defs)
  have c: "calls ?st ! 1 =
             (buildPrompt (js ''Backend engineer'') (js ''Java''), Inl (ErrorObject (js ''timeout'')))"
    by (simp add: failure_isolation_example)
  from per_candidate_failure_isolated [OF v h]
  obtain results tr where r: "status ?resp = 200" "body ?resp = JsonBody (ResultsData results)"
    "calls ?st = calls io0 @ tr" "length results = length (non_blank (request_resumes ?req))"
    "\<forall>i < length results. \<forall>message.
       snd (tr ! i) = Inl (ErrorObject message) \<or> snd (tr ! i) = Inl (NonError message)
       \<longrightarrow>
       results ! i =
         \<lparr>fitScore = None, riskScore = None,
          verdict = js ''Analysis failed '' @ [0x2014] @
                    js '' fallback verdict. Check backend logs.'',
          report = js ''Raw error: '' @ message,
          id_result = id_resume (non_blank (request_resumes ?req) ! i)\<rparr>"
    by blast
  from r(3) have tr: "tr = calls ?st"
    by (simp add: io0_def)
  from r(4) have n: "length results = 3"
    by (simp add: nb)
  from r(5) n c have "results ! 1 =
         \<lparr>fitScore = None, riskScore = None,
          verdict = js ''Analysis failed '' @ [0x2014] @
                    js '' fallback verdict. Check backend logs.'',
          report = js ''Raw error: '' @ js ''timeout'',
          id_result = id_resume (non_blank (request_resumes ?req) ! 1)\<rparr>"
    by (simp add: tr)
  moreover have "id_resume (non_blank (request_resumes ?req) ! 1) = js ''B''"
    unfolding nb by (simp add: resume_def)
  ultimately have "results ! 1 =
         \<lparr>fitScore = None, riskScore = None,
          verdict = js ''Analysis failed '' @ [0x2014] @
                    js '' fallback verdict. Check backend logs.'',
          report = js ''Raw error: '' @ js ''timeout'',
          id_result = js ''B''\<rparr>"
    by simp
  with v r(1,2) n c show ?thesis
    by auto
qed

text \<open>
  C2. For a request that passes validation the response is 200 with one result
  per resume whose trimmed text is not empty, in the order of the input (the
  ids of the results are the ids of those resumes, in order), and the calls made
  are exactly the prompts of those resumes: a blank resume has no entry and no
  call.
\<close>

theorem one_result_per_non_blank_resume:
  assumes "validated req" and "handler ag req st = (resp, st')"
  shows "\<exists>results tr.
           resp = json (ResultsData results) 200 \<and>
           calls st' = calls st @ tr \<and>
           map id_result results = map id_resume (non_blank (request_resumes req)) \<and>
           length results = length (non_blank (request_resumes req)) \<and>
           map fst tr =
             map (\<lambda>r. buildPrompt (request_jd req) (text_resume r))
               (non_blank (request_resumes req))"
proof -
  let ?nb = "non_blank (request_resumes req)"
  let ?loop = "analyze_loop ag (request_jd req) (request_resumes req) [] st"
  from analyze_loop_trace [of ag "request_jd req" "request_resumes req" "[]" st]
  obtain tr where tr: "calls (snd ?loop) = calls st @ tr"
    "map fst tr = map (\<lambda>r. buildPrompt (request_jd req) (text_resume r)) ?nb"
    "fst ?loop = map2 result_of ?nb (map snd tr)"
    by auto
  from tr(2) have len: "length ?nb = length (map snd tr)"
    by (metis length_map)
  from handler_validated [OF assms(1), of ag st] assms(2)
  have resp: "resp = json (ResultsData (fst ?loop)) 200" and st': "st' = snd ?loop"
    by simp_all
  have ids: "map id_result (fst ?loop) = map id_resume ?nb"
    unfolding tr(3) by (rule map2_result_of_ids [OF len])
  have "length (fst ?loop) = length ?nb"
    using ids by (metis length_map)
  with tr(1) tr(2) ids show ?thesis
    unfolding resp st' by blast
qed

theorem one_result_per_non_blank_resume_witness:
  "validated (post_analyze (Some ''Backend engineer'')
                (Some [resume ''A'' ''5 years Go'', resume ''B'' ''   '', resume ''C'' ''Rust'']))
   \<and> (\<exists>results. fst (handler flaky_agent
                 (post_analyze (Some ''Backend engineer'')
                    (Some [resume ''A'' ''5 years Go'', resume ''B'' ''   '',
                           resume ''C'' ''Rust'']))
                 io0) = json (ResultsData results) 200 \<and>
         map id_result results = [js ''A'', js ''C''] \<and> length results = 2)"
proof -
  let ?req = "post_analyze (Some ''Backend engineer'')
                (Some [resume ''A'' ''5 years Go'', resume ''B'' ''   '', resume ''C'' ''Rust''])"
  have v: "validated ?req"
    by (simp add: fixture_defs)
  have h: "handler flaky_agent ?req io0 =
             (fst (handler flaky_agent ?req io0), snd (handler flaky_agent ?req io0))"
    by simp
  have nb: "map id_resume (non_blank (request_resumes ?req)) = [js ''A'', js ''C'']"
    by (simp add: fixture_defs)
  have n: "length (non_blank (request_resumes ?req)) = 2"
    by (simp add: fixture_defs)
  from one_result_per_non_blank_resume [OF v h] v show ?thesis
    unfolding nb n by auto
qed

text \<open>
  C10. A request that passes validation and whose resumes are all blank gets the
  response 200 with the empty list of results, and the state is unchanged: no
  call was made.
\<close>

theorem all_blank_resumes_give_empty_results:
  assumes "validated req" and "\<forall>r \<in> set (request_resumes req). trim (text_resume r) = []"
  shows "handler ag req st = (json (ResultsData []) 200, st)"
proof -
  have loop: "analyze_loop ag j rs acc st = (acc, st)"
    if "\<forall>r \<in> set rs. trim (text_resume r) = []" for j rs acc
    using that by (induction rs) simp_all
  show ?thesis
    using handler_validated [OF assms(1), of ag st] loop [OF assms(2)] by simp
qed

theorem all_blank_resumes_give_empty_results_witness:
  "validated (post_analyze (Some ''Backend engineer'') (Some [resume ''A'' [], resume ''B'' ''  '']))
   \<and> handler flaky_agent
        (post_analyze (Some ''Backend engineer'') (Some [resume ''A'' [], resume ''B'' ''  '']))
        io0 = (json (ResultsData []) 200, io0)"
proof -
  let ?req = "post_analyze (Some ''Backend engineer'') (Some [resume ''A'' [], resume ''B'' ''  ''])"
  have v: "validated ?req"
    by (simp add: fixture_defs)
  have b: "\<forall>r \<in> set (request_resumes ?req). trim (text_resume r) = []"
    by (simp add: fixture_defs)
  from all_blank_resumes_give_empty_results [OF v b] v show ?thesis by simp
qed

text \<open>
  C4 as stated fails where both checks fail: a request with a blank job
  description and no resume is answered with the message about the job
  description, not with the one about the resumes.
\<close>

theorem validation_messages_counterexample:
  "req_method (post_analyze (Some []) (Some [])) = js ''POST'' \<and>
   req_pathname (post_analyze (Some []) (Some [])) = js ''/analyze'' \<and>
   request_resumes (post_analyze (Some []) (Some [])) = [] \<and>
   fst (handler flaky_agent (post_analyze (Some []) (Some [])) io0)
     = json (ErrorData (js ''Missing 'jd' in request body'')) 400 \<and>
   fst (handler flaky_agent (post_analyze (Some []) (Some [])) io0)
     \<noteq> json (ErrorData (js ''Provide at least one resume'')) 400"
  by (simp add: fixture_defs handler_def json_eq)

text \<open>
  C4, amended. For a \<open>POST /analyze\<close> whose body is read: if the job
  description is absent or empty after trimming, the response is 400 with the
  message about the job description; otherwise, if the list of resumes is absent
  or empty, it is 400 with the message about the resumes. In both cases the
  state is unchanged: no call was made.
\<close>

theorem validation_messages:
  assumes "req_method req = js ''POST''" and "req_pathname req = js ''/analyze''"
    and "req_json req \<noteq> None"
  shows "(request_jd req = [] \<longrightarrow>
            handler ag req st =
              (json (ErrorData (js ''Missing 'jd' in request body'')) 400, st)) \<and>
         (request_jd req \<noteq> [] \<and> request_resumes req = [] \<longrightarrow>
            handler ag req st =
              (json (ErrorData (js ''Provide at least one resume'')) 400, st))"
  using assms
  by (auto simp: handler_def request_jd_def request_resumes_def post_not_options Let_def
        split: option.splits)

theorem validation_messages_witness:
  "req_method (post_analyze (Some '' '') None) = js ''POST'' \<and>
   req_pathname (post_analyze (Some '' '') None) = js ''/analyze'' \<and>
   req_json (post_analyze (Some '' '') None) \<noteq> None \<and>
   request_jd (post_analyze (Some '' '') None) = [] \<and>
   handler flaky_agent (post_analyze (Some '' '') None) io0
     = (json (ErrorData (js ''Missing 'jd' in request body'')) 400, io0) \<and>
   req_method (post_analyze (Some ''x'') None) = js ''POST'' \<and>
   req_pathname (post_analyze (Some ''x'') None) = js ''/analyze'' \<and>
   req_json (post_analyze (Some ''x'') None) \<noteq> None \<and>
   request_jd (post_analyze (Some ''x'') None) \<noteq> [] \<and>
   request_resumes (post_analyze (Some ''x'') None) = [] \<and>
   handler flaky_agent (post_analyze (Some ''x'') None) io0
     = (json (ErrorData (js ''Provide at least one resume'')) 400, io0)"
proof -
  let ?a = "post_analyze (Some '' '') None" and ?b = "post_analyze (Some ''x'') None"
  have a: "req_method ?a = js ''POST''" "req_pathname ?a = js ''/analyze''" "req_json ?a \<noteq> None"
    "request_jd ?a = []"
    by (simp_all add: fixture_defs)
  have b: "req_method ?b = js ''POST''" "req_pathname ?b = js ''/analyze''" "req_json ?b \<noteq> None"
    "request_jd ?b \<noteq> []" "request_resumes ?b = []"
    by (simp_all add: fixture_defs)
  from validation_messages [OF a(1-3), of flaky_agent io0]
    validation_messages [OF b(1-3), of flaky_agent io0] a b
  show ?thesis by simp
qed

text \<open>
  C9 as stated fails on the 404 response: it is not the 204 preflight, and its
  \<open>Content-Type\<close> is not \<open>application/json\<close>.
\<close>

theorem not_found_content_type_counterexample:
  "status (fst (handler flaky_agent (get_request ''/health'') io0)) = 404 \<and>
   header (fst (handler flaky_agent (get_request ''/health'') io0)) ''Content-Type''
     = Some (js ''text/plain;charset=UTF-8'') \<and>
   js ''text/plain;charset=UTF-8'' \<noteq> js ''application/json''"
  by (simp add: handler_def get_request_def not_found_fields content_types_differ)
    (simp add: js_def)

text \<open>
  C9, amended. Every response carries \<open>Access-Control-Allow-Origin: *\<close>. Every
  response other than the 204 preflight and the 404 (that is, every response
  built by \<open>json\<close>) carries \<open>Content-Type: application/json\<close>; the 404
  response, a plain text built without a \<open>Content-Type\<close>, carries
  \<open>Content-Type: text/plain;charset=UTF-8\<close>.
\<close>

theorem response_headers:
  "header (fst (handler ag req st)) ''Access-Control-Allow-Origin'' = Some (js ''*'') \<and>
   (status (fst (handler ag req st)) \<noteq> 204 \<and> status (fst (handler ag req st)) \<noteq> 404 \<longrightarrow>
      header (fst (handler ag req st)) ''Content-Type'' = Some (js ''application/json'')) \<and>
   (status (fst (handler ag req st)) = 404 \<longrightarrow>
      header (fst (handler ag req st)) ''Content-Type'' = Some (js ''text/plain;charset=UTF-8''))"
  by (simp add: handler_def Let_def json_headers not_found_fields preflight_fields
        split: option.splits prod.splits)

theorem response_headers_witness:
  "status (fst (handler flaky_agent (post_analyze None None) io0)) \<noteq> 204 \<and>
   status (fst (handler flaky_agent (post_analyze None None) io0)) \<noteq> 404 \<and>
   header (fst (handler flaky_agent (post_analyze None None) io0)) ''Content-Type''
     = Some (js ''application/json'') \<and>
   status (fst (handler flaky_agent (get_request ''/health'') io0)) = 404 \<and>
   header (fst (handler flaky_agent (get_request ''/health'') io0)) ''Content-Type''
     = Some (js ''text/plain;charset=UTF-8'')"
proof -
  have s: "status (fst (handler flaky_agent (post_analyze None None) io0)) = 400"
    by (simp add: handler_def fixture_defs)
  have t: "status (fst (handler flaky_agent (get_request ''/health'') io0)) = 404"
    by (simp add: handler_def get_request_def not_found_fields) (simp add: js_def)
  from response_headers [of flaky_agent "post_analyze None None" io0]
    response_headers [of flaky_agent "get_request ''/health''" io0] s t
  show ?thesis by simp
qed

end
